theory Spec2Isabelle
  imports Main "HOL-Library.Word"
begin

section \<open>JavaScript strings\<close>

text \<open>
  A JavaScript string is a sequence of UTF-16 code units. String literals of the source
  are written through \<open>js\<close>, which maps each ASCII character to its code unit.
\<close>

type_synonym jsstring = "16 word list"

definition js :: "string \<Rightarrow> jsstring" where
  "js s = map of_char s"

text \<open>
  The code units that \<open>String.prototype.trim\<close> strips: the WhiteSpace and LineTerminator
  productions of ECMAScript (TAB, LF, VT, FF, CR, SP, NBSP, the Unicode space separators,
  LS, PS and the byte order mark). All of them lie in the basic plane, so the test is
  per code unit.
\<close>

definition is_whitespace :: "16 word \<Rightarrow> bool" where
  "is_whitespace c \<longleftrightarrow>
     (0x9 \<le> c \<and> c \<le> 0xD) \<or> c = 0x20 \<or> c = 0xA0 \<or> c = 0x1680 \<or>
     (0x2000 \<le> c \<and> c \<le> 0x200A) \<or> c = 0x2028 \<or> c = 0x2029 \<or> c = 0x202F \<or>
     c = 0x205F \<or> c = 0x3000 \<or> c = 0xFEFF"

definition trim :: "jsstring \<Rightarrow> jsstring" where
  "trim s = rev (dropWhile is_whitespace (rev (dropWhile is_whitespace s)))"

text \<open>\<open>s.split(sep)\<close> for a separator of one code unit: never an empty array.\<close>

fun split_on :: "16 word \<Rightarrow> jsstring \<Rightarrow> jsstring list" where
  "split_on sep [] = [[]]"
| "split_on sep (c # cs) =
     (if c = sep then [] # split_on sep cs
      else (case split_on sep cs of [] \<Rightarrow> [[c]] | p # ps \<Rightarrow> (c # p) # ps))"

text \<open>
  \<open>parts[0]\<close> inside a template literal: an array without a first element reads
  \<open>undefined\<close>, which the template prints as the text "undefined".
\<close>

definition first_part :: "jsstring list \<Rightarrow> jsstring" where
  "first_part parts = (case parts of [] \<Rightarrow> js ''undefined'' | p # _ \<Rightarrow> p)"

text \<open>Truthiness of a value of type \<open>string | null\<close>: neither null nor the empty string.\<close>

definition truthy :: "jsstring option \<Rightarrow> bool" where
  "truthy v = (case v of None \<Rightarrow> False | Some s \<Rightarrow> s \<noteq> [])"

section \<open>buildNewStatus (jira.ts)\<close>

text \<open>
  \<open>buildNewStatus(statusUpdate, currentStatus, addDatePrefix)\<close>. The clock is an input:
  \<open>isoNow\<close> is the text that \<open>new Date().toISOString()\<close> returns at the call
  (\<open>YYYY-MM-DDTHH:mm:ss.sssZ\<close>, in UTC); it is read only when \<open>addDatePrefix\<close> holds.
\<close>

definition buildNewStatus :: "jsstring \<Rightarrow> jsstring \<Rightarrow> jsstring option \<Rightarrow> bool \<Rightarrow> jsstring" where
  "buildNewStatus isoNow statusUpdate currentStatus addDatePrefix =
     (let newLine =
        (if addDatePrefix
         then (let today = first_part (split_on 0x54 isoNow)
               in today @ js '': '' @ statusUpdate)
         else statusUpdate)
      in (case currentStatus of
            None \<Rightarrow> newLine
          | Some cur \<Rightarrow>
              if cur \<noteq> [] \<and> trim cur \<noteq> [] then newLine @ [0xA] @ cur else newLine))"

text \<open>
  The composer as the specification words it: the first line is the date, a colon and a
  space before the update text when the flag is set, the update text alone otherwise;
  the stored value follows after a newline when it is present and has a code unit that
  is not whitespace.
\<close>

definition compose_spec :: "jsstring \<Rightarrow> jsstring \<Rightarrow> jsstring option \<Rightarrow> bool \<Rightarrow> jsstring" where
  "compose_spec today u c d =
     (let firstLine = (if d then today @ js '': '' @ u else u)
      in (case c of
            None \<Rightarrow> firstLine
          | Some cur \<Rightarrow>
              if (\<exists>x \<in> set cur. \<not> is_whitespace x) then firstLine @ [0xA] @ cur
              else firstLine))"

section \<open>Data model (types.ts)\<close>

text \<open>
  A member of \<open>issue.fields\<close> has type \<open>unknown\<close>; the code only asks whether it is a
  string.
\<close>

datatype jsvalue = JString jsstring | JOther

record JiraField =
  field_id :: jsstring
  field_name :: jsstring
  field_custom :: bool

text \<open>
  \<open>JiraIssue\<close>: \<open>key\<close> and \<open>fields\<close>, an object with the members \<open>summary\<close> (a string),
  \<open>status\<close> (an object with a \<open>name\<close>) and any others, kept in \<open>other_fields\<close>.
\<close>

record JiraIssue =
  key :: jsstring
  summary :: jsstring
  status_name :: jsstring
  other_fields :: "jsstring \<Rightarrow> jsvalue option"

text \<open>\<open>issue.fields[k]\<close>: an absent member reads \<open>undefined\<close>, here \<open>None\<close>.\<close>

definition fields_member :: "JiraIssue \<Rightarrow> jsstring \<Rightarrow> jsvalue option" where
  "fields_member issue k =
     (if k = js ''summary'' then Some (JString (summary issue))
      else if k = js ''status'' then Some JOther
      else other_fields issue k)"

section \<open>The process and its surroundings\<close>

text \<open>
  The requests \<open>jiraFetch\<close> sends: the field list, the search (the JQL text, which goes
  into the URL through \<open>encodeURIComponent\<close>, the \<open>fields\<close> parameter and \<open>maxResults\<close>)
  and the update of one issue (its key in the path; the field identifier and the new
  value in the JSON body). Headers are not recorded.
\<close>

datatype request =
    GetField
  | GetSearch jsstring jsstring nat
  | PutIssue jsstring jsstring jsstring

text \<open>
  What comes back: the call rejects (no connection, or a body that is not JSON) with an
  error message; a response that is not \<open>ok\<close>, with its status and text; or the parsed
  body, of the type the caller declares.
\<close>

datatype 'a reply = Rejected jsstring | NotOk nat jsstring | OkJson 'a

text \<open>
  What the process writes to the terminal. One constructor stands for one block of
  \<open>console.log\<close> or spinner calls; its arguments are the values the source puts into
  the text. Colours and fixed wording are left out.
\<close>

datatype console =
    NotAuthenticated
  | Searching
  | Found nat
  | NoTicketsFound
  | JqlLine jsstring
  | SearchFailed
  | ErrorLine jsstring
  | TicketUpdate jsstring jsstring jsstring "jsstring option" jsstring
  | Updating jsstring
  | Updated jsstring
  | FailedToUpdate jsstring jsstring
  | SkippingRemaining
  | Skipped jsstring
  | Summary nat nat
  | DryRunBanner
  | WouldUpdate nat

text \<open>
  The effects of a run, in order: a run of \<open>cloudflared access token\<close>, an HTTP request,
  a question put to the operator, a piece of terminal output.
\<close>

datatype event = ExecToken | Http request | Prompt | Out console

text \<open>
  The state of the process: the module variable \<open>currentStatusFieldId\<close> of jira.ts and the
  effects so far.
\<close>

record world =
  currentStatusFieldId :: "jsstring option"
  trace :: "event list"

definition initial_world :: world where
  "initial_world = \<lparr>currentStatusFieldId = None, trace = []\<rparr>"

text \<open>
  The surroundings answer each effect. \<open>cloudflared_token n\<close> is the output of the
  \<open>n\<close>-th run of the token command (\<open>None\<close> when it fails); the replies of the server
  are indexed by the number of requests sent before; \<open>operator_answer n\<close> is what
  \<open>prompt\<close> resolves to at the \<open>n\<close>-th question (the line typed, lower-cased and
  trimmed); \<open>clock n\<close> is the text of \<open>new Date().toISOString()\<close> after \<open>n\<close> effects.
\<close>

record env =
  cloudflared_token :: "nat \<Rightarrow> jsstring option"
  field_reply :: "nat \<Rightarrow> JiraField list reply"
  search_reply :: "nat \<Rightarrow> request \<Rightarrow> JiraIssue list reply"
  put_reply :: "nat \<Rightarrow> request \<Rightarrow> unit reply"
  operator_answer :: "nat \<Rightarrow> jsstring"
  clock :: "nat \<Rightarrow> jsstring"

definition emit :: "event \<Rightarrow> world \<Rightarrow> world" where
  "emit ev w = w\<lparr>trace := trace w @ [ev]\<rparr>"

definition is_exec :: "event \<Rightarrow> bool" where
  "is_exec ev = (case ev of ExecToken \<Rightarrow> True | _ \<Rightarrow> False)"

definition is_http :: "event \<Rightarrow> bool" where
  "is_http ev = (case ev of Http _ \<Rightarrow> True | _ \<Rightarrow> False)"

definition is_prompt :: "event \<Rightarrow> bool" where
  "is_prompt ev = (case ev of Prompt \<Rightarrow> True | _ \<Rightarrow> False)"

definition occurrences :: "(event \<Rightarrow> bool) \<Rightarrow> world \<Rightarrow> nat" where
  "occurrences P w = length (filter P (trace w))"

text \<open>A number inside a template literal: its decimal digits.\<close>

fun show_number :: "nat \<Rightarrow> jsstring" where
  "show_number n =
     (if n < 10 then [of_nat (48 + n)]
      else show_number (n div 10) @ [of_nat (48 + n mod 10)])"

text \<open>
  \<open>encodeURIComponent\<close> throws a URIError on a string with a lone surrogate; on any
  other string it returns the percent-encoding, which is not expanded here.
\<close>

fun well_formed :: "jsstring \<Rightarrow> bool" where
  "well_formed [] = True"
| "well_formed [c] = (\<not> (0xD800 \<le> c \<and> c \<le> 0xDFFF))"
| "well_formed (c # d # ds) =
     (if 0xD800 \<le> c \<and> c \<le> 0xDBFF then 0xDC00 \<le> d \<and> d \<le> 0xDFFF \<and> well_formed ds
      else \<not> (0xDC00 \<le> c \<and> c \<le> 0xDFFF) \<and> well_formed (d # ds))"

section \<open>auth.ts\<close>

text \<open>An exception is the message of the \<open>Error\<close> thrown, on the left of the sum.\<close>

definition getToken :: "env \<Rightarrow> world \<Rightarrow> (jsstring + jsstring) \<times> world" where
  \<open>getToken e w =
     (let n = occurrences is_exec w; w1 = emit ExecToken w
      in (case cloudflared_token e n of
            None \<Rightarrow>
              (Inl (js ''Failed to get access token. Please run "add-status auth" to authenticate first.''), w1)
          | Some result \<Rightarrow> (Inr (trim result), w1)))\<close>

definition isAuthenticated :: "env \<Rightarrow> world \<Rightarrow> bool \<times> world" where
  "isAuthenticated e w =
     (case getToken e w of (Inl _, w1) \<Rightarrow> (False, w1) | (Inr _, w1) \<Rightarrow> (True, w1))"

section \<open>jira.ts\<close>

definition jiraFetch :: "env \<Rightarrow> request \<Rightarrow> (nat \<Rightarrow> 'a reply) \<Rightarrow> world \<Rightarrow> (jsstring + 'a) \<times> world" where
  "jiraFetch e req server w =
     (case getToken e w of
        (Inl err, w1) \<Rightarrow> (Inl err, w1)
      | (Inr token, w1) \<Rightarrow>
          (let n = occurrences is_http w1; w2 = emit (Http req) w1
           in (case server n of
                 Rejected msg \<Rightarrow> (Inl msg, w2)
               | NotOk status errorText \<Rightarrow>
                   (Inl (js ''Jira API error ('' @ show_number status @ js ''): '' @ errorText), w2)
               | OkJson body \<Rightarrow> (Inr body, w2))))"

definition getCurrentStatusFieldId :: "env \<Rightarrow> world \<Rightarrow> (jsstring + jsstring) \<times> world" where
  \<open>getCurrentStatusFieldId e w =
     (case (if truthy (currentStatusFieldId w) then currentStatusFieldId w else None) of
        Some cached \<Rightarrow> (Inr cached, w)
      | None \<Rightarrow>
          (case jiraFetch e GetField (field_reply e) w of
             (Inl err, w1) \<Rightarrow> (Inl err, w1)
           | (Inr allFields, w1) \<Rightarrow>
               (case find (\<lambda>field. field_name field = js ''Current Status'' \<and> field_custom field) allFields of
                  None \<Rightarrow>
                    (Inl (js (''Could not find "Current Status" custom field. '' @
                              ''Make sure this field exists in your Jira project.'')), w1)
                | Some currentStatusField \<Rightarrow>
                    (Inr (field_id currentStatusField),
                     w1\<lparr>currentStatusFieldId := Some (field_id currentStatusField)\<rparr>))))\<close>

definition searchIssues :: "env \<Rightarrow> jsstring \<Rightarrow> world \<Rightarrow> (jsstring + JiraIssue list) \<times> world" where
  "searchIssues e jql w =
     (case getCurrentStatusFieldId e w of
        (Inl err, w1) \<Rightarrow> (Inl err, w1)
      | (Inr fieldId, w1) \<Rightarrow>
          if \<not> well_formed jql then (Inl (js ''URI malformed''), w1)
          else (let fieldsParam = js ''summary,status,'' @ fieldId;
                    req = GetSearch jql fieldsParam 100
                in jiraFetch e req (\<lambda>n. search_reply e n req) w1))"

text \<open>\<open>typeof value === 'string' ? value : null\<close>, the end of \<open>getCurrentStatus\<close>.\<close>

definition string_or_null :: "jsvalue option \<Rightarrow> jsstring option" where
  "string_or_null v = (case v of Some (JString text) \<Rightarrow> Some text | _ \<Rightarrow> None)"

definition getCurrentStatus :: "env \<Rightarrow> JiraIssue \<Rightarrow> world \<Rightarrow> (jsstring + jsstring option) \<times> world" where
  "getCurrentStatus e issue w =
     (case getCurrentStatusFieldId e w of
        (Inl err, w1) \<Rightarrow> (Inl err, w1)
      | (Inr fieldId, w1) \<Rightarrow> (Inr (string_or_null (fields_member issue fieldId)), w1))"

definition updateCurrentStatus :: "env \<Rightarrow> jsstring \<Rightarrow> jsstring \<Rightarrow> world \<Rightarrow> (jsstring + unit) \<times> world" where
  "updateCurrentStatus e issueKey newStatus w =
     (case getCurrentStatusFieldId e w of
        (Inl err, w1) \<Rightarrow> (Inl err, w1)
      | (Inr fieldId, w1) \<Rightarrow>
          (let req = PutIssue issueKey fieldId newStatus
           in (case jiraFetch e req (\<lambda>n. put_reply e n req) w1 of
                 (Inl err, w2) \<Rightarrow> (Inl err, w2)
               | (Inr _, w2) \<Rightarrow> (Inr (), w2))))"

section \<open>index.ts\<close>

definition displayTicketUpdate :: "JiraIssue \<Rightarrow> jsstring option \<Rightarrow> jsstring \<Rightarrow> world \<Rightarrow> world" where
  "displayTicketUpdate issue currentStatus newStatus w =
     emit (Out (TicketUpdate (key issue) (summary issue) (status_name issue)
                  (if truthy currentStatus then currentStatus else None) newStatus)) w"

text \<open>The local variables of \<open>processTicketsInteractive\<close>.\<close>

record progress =
  applyAll :: bool
  skipAll :: bool
  updatedCount :: nat
  skippedCount :: nat

text \<open>
  The spinner and the \<open>try\<close>/\<open>catch\<close> around \<open>updateCurrentStatus\<close>, written three times
  in the source (lines 88-97, 109-118 and 124-133) with the same text.
\<close>

definition tryUpdate :: "env \<Rightarrow> JiraIssue \<Rightarrow> jsstring \<Rightarrow> progress \<Rightarrow> world \<Rightarrow> progress \<times> world" where
  "tryUpdate e issue newStatus p w =
     (case updateCurrentStatus e (key issue) newStatus (emit (Out (Updating (key issue))) w) of
        (Inr _, w1) \<Rightarrow>
          (p\<lparr>updatedCount := updatedCount p + 1\<rparr>, emit (Out (Updated (key issue))) w1)
      | (Inl err, w1) \<Rightarrow> (p, emit (Out (FailedToUpdate (key issue) err)) w1))"

text \<open>The body of the \<open>for\<close> loop of \<open>processTicketsInteractive\<close>, for one issue.\<close>

definition interactiveStep ::
  "env \<Rightarrow> jsstring \<Rightarrow> bool \<Rightarrow> JiraIssue \<Rightarrow> progress \<Rightarrow> world \<Rightarrow> (jsstring + progress) \<times> world" where
  "interactiveStep e statusUpdate addDatePrefix issue p w =
     (if skipAll p then (Inr (p\<lparr>skippedCount := skippedCount p + 1\<rparr>), w)
      else (case getCurrentStatus e issue w of
              (Inl err, w1) \<Rightarrow> (Inl err, w1)
            | (Inr currentStatus, w1) \<Rightarrow>
                (let newStatus = buildNewStatus (clock e (length (trace w1))) statusUpdate
                                   currentStatus addDatePrefix;
                     w2 = displayTicketUpdate issue currentStatus newStatus w1
                 in if applyAll p then
                      (case tryUpdate e issue newStatus p w2 of (p1, w3) \<Rightarrow> (Inr p1, w3))
                    else
                      (let answer = operator_answer e (occurrences is_prompt w2);
                           w3 = emit Prompt w2
                       in if answer = js ''y'' \<or> answer = js ''yes'' then
                            (case tryUpdate e issue newStatus p w3 of (p1, w4) \<Rightarrow> (Inr p1, w4))
                          else if answer = js ''a'' \<or> answer = js ''all'' then
                            (case tryUpdate e issue newStatus (p\<lparr>applyAll := True\<rparr>) w3 of
                               (p1, w4) \<Rightarrow> (Inr p1, w4))
                          else if answer = js ''s'' \<or> answer = js ''skip'' \<or> answer = js ''skip all'' then
                            (Inr (p\<lparr>skipAll := True, skippedCount := skippedCount p + 1\<rparr>),
                             emit (Out SkippingRemaining) w3)
                          else
                            (Inr (p\<lparr>skippedCount := skippedCount p + 1\<rparr>),
                             emit (Out (Skipped (key issue))) w3)))))"

fun interactiveLoop ::
  "env \<Rightarrow> jsstring \<Rightarrow> bool \<Rightarrow> JiraIssue list \<Rightarrow> progress \<Rightarrow> world \<Rightarrow> (jsstring + progress) \<times> world" where
  "interactiveLoop e statusUpdate addDatePrefix [] p w = (Inr p, w)"
| "interactiveLoop e statusUpdate addDatePrefix (issue # rest) p w =
     (case interactiveStep e statusUpdate addDatePrefix issue p w of
        (Inl err, w1) \<Rightarrow> (Inl err, w1)
      | (Inr p1, w1) \<Rightarrow> interactiveLoop e statusUpdate addDatePrefix rest p1 w1)"

definition processTicketsInteractive ::
  "env \<Rightarrow> JiraIssue list \<Rightarrow> jsstring \<Rightarrow> bool \<Rightarrow> world \<Rightarrow> (jsstring + unit) \<times> world" where
  "processTicketsInteractive e issues statusUpdate addDatePrefix w =
     (case interactiveLoop e statusUpdate addDatePrefix issues
             \<lparr>applyAll = False, skipAll = False, updatedCount = 0, skippedCount = 0\<rparr> w of
        (Inl err, w1) \<Rightarrow> (Inl err, w1)
      | (Inr p, w1) \<Rightarrow> (Inr (), emit (Out (Summary (updatedCount p) (skippedCount p))) w1))"

fun dryRunLoop ::
  "env \<Rightarrow> jsstring \<Rightarrow> bool \<Rightarrow> JiraIssue list \<Rightarrow> world \<Rightarrow> (jsstring + unit) \<times> world" where
  "dryRunLoop e statusUpdate addDatePrefix [] w = (Inr (), w)"
| "dryRunLoop e statusUpdate addDatePrefix (issue # rest) w =
     (case getCurrentStatus e issue w of
        (Inl err, w1) \<Rightarrow> (Inl err, w1)
      | (Inr currentStatus, w1) \<Rightarrow>
          (let newStatus = buildNewStatus (clock e (length (trace w1))) statusUpdate
                             currentStatus addDatePrefix
           in dryRunLoop e statusUpdate addDatePrefix rest
                (displayTicketUpdate issue currentStatus newStatus w1)))"

definition processTicketsDryRun ::
  "env \<Rightarrow> JiraIssue list \<Rightarrow> jsstring \<Rightarrow> bool \<Rightarrow> world \<Rightarrow> (jsstring + unit) \<times> world" where
  "processTicketsDryRun e issues statusUpdate addDatePrefix w =
     (case dryRunLoop e statusUpdate addDatePrefix issues (emit (Out DryRunBanner) w) of
        (Inl err, w1) \<Rightarrow> (Inl err, w1)
      | (Inr _, w1) \<Rightarrow> (Inr (), emit (Out (WouldUpdate (length issues))) w1))"

record options =
  jql :: jsstring
  dryRun :: bool
  datePrefix :: bool

text \<open>
  How \<open>handleUpdate\<close> ends: \<open>process.exit(n)\<close>, or a normal return, after which the
  process ends with status 0.
\<close>

datatype ending = ProcessExit nat | Returned

definition exit_status :: "ending \<Rightarrow> nat" where
  "exit_status en = (case en of ProcessExit n \<Rightarrow> n | Returned \<Rightarrow> 0)"

definition handleUpdate :: "env \<Rightarrow> jsstring \<Rightarrow> options \<Rightarrow> world \<Rightarrow> ending \<times> world" where
  "handleUpdate e statusUpdate opts w =
     (case isAuthenticated e w of
        (False, w1) \<Rightarrow> (ProcessExit 1, emit (Out NotAuthenticated) w1)
      | (True, w1) \<Rightarrow>
          (case (case searchIssues e (jql opts) (emit (Out Searching) w1) of
                   (Inl err, w2) \<Rightarrow> (Inl err, w2)
                 | (Inr issues, w2) \<Rightarrow>
                     (let w3 = emit (Out (Found (length issues))) w2
                      in if length issues = 0 then
                           (Inr (), emit (Out (JqlLine (jql opts))) (emit (Out NoTicketsFound) w3))
                         else
                           (let w4 = emit (Out (JqlLine (jql opts))) w3
                            in if dryRun opts then
                                 processTicketsDryRun e issues statusUpdate (datePrefix opts) w4
                               else
                                 processTicketsInteractive e issues statusUpdate (datePrefix opts) w4)))
           of
             (Inr _, w5) \<Rightarrow> (Returned, w5)
           | (Inl err, w5) \<Rightarrow>
               (ProcessExit 1, emit (Out (ErrorLine err)) (emit (Out SearchFailed) w5))))"

section \<open>Vocabulary of the claims\<close>

text \<open>The field identifier is resolved: the cache holds it, and it is not empty.\<close>

definition field_id_cached :: "jsstring \<Rightarrow> world \<Rightarrow> bool" where
  "field_id_cached fid w \<longleftrightarrow> currentStatusFieldId w = Some fid \<and> fid \<noteq> []"

text \<open>Kinds of effects: a field lookup, a search, a write, a display of one ticket.\<close>

definition is_lookup :: "event \<Rightarrow> bool" where
  "is_lookup ev = (case ev of Http GetField \<Rightarrow> True | _ \<Rightarrow> False)"

definition is_search :: "event \<Rightarrow> bool" where
  "is_search ev = (case ev of Http (GetSearch _ _ _) \<Rightarrow> True | _ \<Rightarrow> False)"

definition is_write :: "event \<Rightarrow> bool" where
  "is_write ev = (case ev of Http (PutIssue _ _ _) \<Rightarrow> True | _ \<Rightarrow> False)"

definition is_display :: "event \<Rightarrow> bool" where
  "is_display ev = (case ev of Out (TicketUpdate _ _ _ _ _) \<Rightarrow> True | _ \<Rightarrow> False)"

text \<open>Work on one issue that leaves a mark: a display, a question or an update request.\<close>

definition is_per_issue :: "event \<Rightarrow> bool" where
  "is_per_issue ev \<longleftrightarrow> is_display ev \<or> is_prompt ev \<or> is_write ev"

text \<open>
  A bound on what a stretch of effects holds: at most \<open>d\<close> displays, \<open>p\<close> questions and
  \<open>m\<close> update requests, and no search.
\<close>

definition tally :: "nat \<Rightarrow> nat \<Rightarrow> nat \<Rightarrow> event list \<Rightarrow> bool" where
  "tally d p m evs \<longleftrightarrow>
     length (filter is_display evs) \<le> d \<and> length (filter is_prompt evs) \<le> p \<and>
     length (filter is_write evs) \<le> m \<and> filter is_search evs = []"

text \<open>
  The value proposed for an issue when the field identifier is \<open>fid\<close> and the clock is
  read after \<open>n\<close> effects, and the display of the issue as \<open>displayTicketUpdate\<close> prints it.
\<close>

definition proposed :: "env \<Rightarrow> jsstring \<Rightarrow> jsstring \<Rightarrow> bool \<Rightarrow> nat \<Rightarrow> JiraIssue \<Rightarrow> jsstring" where
  "proposed e fid u d n issue =
     buildNewStatus (clock e n) u (string_or_null (fields_member issue fid)) d"

definition shown :: "env \<Rightarrow> jsstring \<Rightarrow> jsstring \<Rightarrow> bool \<Rightarrow> nat \<Rightarrow> JiraIssue \<Rightarrow> event" where
  "shown e fid u d n issue =
     (let cur = string_or_null (fields_member issue fid)
      in Out (TicketUpdate (key issue) (summary issue) (status_name issue)
                (if truthy cur then cur else None) (proposed e fid u d n issue)))"

text \<open>The displays of a list of issues, the first after \<open>n\<close> effects, one effect each.\<close>

fun shown_all :: "env \<Rightarrow> jsstring \<Rightarrow> jsstring \<Rightarrow> bool \<Rightarrow> nat \<Rightarrow> JiraIssue list \<Rightarrow> event list" where
  "shown_all e fid u d n [] = []"
| "shown_all e fid u d n (issue # rest) = shown e fid u d n issue # shown_all e fid u d (Suc n) rest"

section \<open>A concrete setting\<close>

text \<open>
  Surroundings in which the theorems below are tried out: the token command always
  succeeds, the server knows one custom field named Current Status and returns the issues
  \<open>found\<close> to every search, as many as \<open>maxResults\<close> allows, each update is answered by
  \<open>put\<close>, the operator types
  \<open>answers\<close> in turn (and an empty line afterwards), and the clock stands still.
\<close>

definition demo_field :: "jsstring \<Rightarrow> JiraField" where
  "demo_field fid = \<lparr>field_id = fid, field_name = js ''Current Status'', field_custom = True\<rparr>"

definition demo_issue :: "string \<Rightarrow> jsvalue option \<Rightarrow> JiraIssue" where
  "demo_issue k v =
     \<lparr>key = js k, summary = js ''Task'', status_name = js ''In Progress'',
      other_fields = (\<lambda>f. if f = js ''customfield_10010'' then v else None)\<rparr>"

definition demo_env :: "jsstring list \<Rightarrow> (request \<Rightarrow> unit reply) \<Rightarrow> JiraIssue list \<Rightarrow> env" where
  "demo_env answers put found =
     \<lparr>cloudflared_token = (\<lambda>n. Some (js ''token'')),
      field_reply = (\<lambda>n. OkJson [demo_field (js ''customfield_10010'')]),
      search_reply = (\<lambda>n r. case r of GetSearch _ _ m \<Rightarrow> OkJson (take m found) | _ \<Rightarrow> OkJson []),
      put_reply = (\<lambda>n r. put r),
      operator_answer = (\<lambda>n. if n < length answers then answers ! n else []),
      clock = (\<lambda>n. js ''2026-01-27T09:30:00.000Z'')\<rparr>"


text \<open>A process whose field identifier is resolved and that has done nothing else yet.\<close>

definition demo_world :: world where
  "demo_world = \<lparr>currentStatusFieldId = Some (js ''customfield_10010''), trace = []\<rparr>"

section \<open>Properties of the composer\<close>

lemma of_char_nat_less: "(of_char c :: nat) < 256"
proof -
  have "(of_char c :: nat) mod 256 < 256" by simp
  then show ?thesis by (simp only: of_char_mod_256)
qed

lemma unat_of_char: "unat (of_char c :: 16 word) = of_char c"
proof -
  have "unat (of_nat (of_char c) :: 16 word) = of_char c mod 2 ^ 16"
    by (simp only: unat_of_nat len_of_numeral_defs) simp
  moreover have "(of_char c :: nat) < 2 ^ 16"
  proof -
    have "(256::nat) \<le> 2 ^ 16" by simp
    with of_char_nat_less [of c] show ?thesis by (rule order.strict_trans2)
  qed
  ultimately show ?thesis by (simp add: of_nat_of_char)
qed

lemma js_eq_iff: "js a = js b \<longleftrightarrow> a = b"
proof -
  have "inj (of_char :: char \<Rightarrow> 16 word)"
  proof (rule injI)
    fix x y :: char
    assume "(of_char x :: 16 word) = of_char y"
    then have "unat (of_char x :: 16 word) = unat (of_char y :: 16 word)" by simp
    then have "(of_char x :: nat) = of_char y" by (simp only: unat_of_char)
    then show "x = y" by simp
  qed
  then show ?thesis unfolding js_def by (rule inj_map_eq_map)
qed

lemma trim_empty_iff: "trim s = [] \<longleftrightarrow> (\<forall>x \<in> set s. is_whitespace x)"
proof -
  have "trim s = [] \<longleftrightarrow> dropWhile is_whitespace (rev (dropWhile is_whitespace s)) = []"
    by (simp add: trim_def)
  also have "\<dots> \<longleftrightarrow> (\<forall>x \<in> set (dropWhile is_whitespace s). is_whitespace x)"
    by simp
  also have "\<dots> \<longleftrightarrow> (\<forall>x \<in> set s. is_whitespace x)"
  proof
    assume a: "\<forall>x \<in> set (dropWhile is_whitespace s). is_whitespace x"
    show "\<forall>x \<in> set s. is_whitespace x"
    proof
      fix x assume "x \<in> set s"
      then have "x \<in> set (takeWhile is_whitespace s) \<or> x \<in> set (dropWhile is_whitespace s)"
        by (metis Un_iff set_append takeWhile_dropWhile_id)
      then show "is_whitespace x"
        using a by (auto dest: set_takeWhileD)
    qed
  next
    assume "\<forall>x \<in> set s. is_whitespace x"
    then show "\<forall>x \<in> set (dropWhile is_whitespace s). is_whitespace x"
      by (auto dest: set_dropWhileD)
  qed
  finally show ?thesis .
qed

lemma split_prefix: "sep \<notin> set a \<Longrightarrow> split_on sep (a @ sep # r) = a # split_on sep r"
  by (induction a) auto

lemma first_part_split: "sep \<notin> set a \<Longrightarrow> first_part (split_on sep (a @ sep # r)) = a"
  by (simp add: split_prefix first_part_def)

lemma buildNewStatus_whitespace:
  "\<forall>x \<in> set c. is_whitespace x \<Longrightarrow>
   buildNewStatus isoNow u (Some c) d = buildNewStatus isoNow u None d"
  by (simp add: buildNewStatus_def trim_empty_iff [THEN iffD2])

text \<open>
  Claim C1. For every update text, stored value (a string or null) and date-prefix flag,
  buildNewStatus returns what the reference definition \<open>compose_spec\<close> returns for
  today's date: whenever the clock's ISO timestamp is the date \<open>today\<close>, the letter T
  and the time of day (a date in the form YYYY-MM-DD holds no letter T), the two agree.
\<close>

theorem buildNewStatus_refines_compose_spec:
  assumes "0x54 \<notin> set today"
  shows "buildNewStatus (today @ 0x54 # time) u c d = compose_spec today u c d"
proof (cases c)
  case None
  then show ?thesis
    using assms by (simp add: buildNewStatus_def compose_spec_def first_part_split)
next
  case (Some cur)
  have "cur \<noteq> [] \<and> trim cur \<noteq> [] \<longleftrightarrow> (\<exists>x \<in> set cur. \<not> is_whitespace x)"
    by (auto simp: trim_empty_iff)
  then show ?thesis
    using assms Some by (simp add: buildNewStatus_def compose_spec_def first_part_split)
qed

theorem buildNewStatus_refines_compose_spec_witness:
  "buildNewStatus (js ''2026-01-27T09:30:00.000Z'') (js ''On track'')
     (Some (js ''2026-01-20: Review done'')) True
   = js ''2026-01-27: On track'' @ [0xA] @ js ''2026-01-20: Review done''
   \<and> compose_spec (js ''2026-01-27'') (js ''On track'') (Some (js ''2026-01-20: Review done'')) True
   = js ''2026-01-27: On track'' @ [0xA] @ js ''2026-01-20: Review done''"
proof -
  have h: "0x54 \<notin> set (js ''2026-01-27'')"
    by (simp add: js_def)
  have e: "js ''2026-01-27T09:30:00.000Z'' = js ''2026-01-27'' @ 0x54 # js ''09:30:00.000Z''"
    by (simp add: js_def)
  have c: "compose_spec (js ''2026-01-27'') (js ''On track'') (Some (js ''2026-01-20: Review done'')) True
           = js ''2026-01-27: On track'' @ [0xA] @ js ''2026-01-20: Review done''"
    by (simp add: compose_spec_def js_def is_whitespace_def)
  show ?thesis
    using buildNewStatus_refines_compose_spec [OF h, of "js ''09:30:00.000Z''" "js ''On track''"
        "Some (js ''2026-01-20: Review done'')" True] e c
    by simp
qed

text \<open>
  Claim C6. A stored value made of whitespace only is treated as a null one, whatever the
  update text: the prior content is dropped. In particular composing "X" with three spaces
  and no date prefix gives "X".
\<close>

theorem buildNewStatus_whitespace_only:
  "((\<forall>x \<in> set c. is_whitespace x) \<longrightarrow>
      buildNewStatus isoNow u (Some c) d = buildNewStatus isoNow u None d)
   \<and> buildNewStatus isoNow (js ''X'') (Some (js ''   '')) False = js ''X''"
proof -
  have "\<forall>x \<in> set (js ''   ''). is_whitespace x"
    by (simp add: js_def is_whitespace_def)
  then have "buildNewStatus isoNow (js ''X'') (Some (js ''   '')) False
             = buildNewStatus isoNow (js ''X'') None False"
    by (rule buildNewStatus_whitespace)
  then show ?thesis
    by (simp add: buildNewStatus_whitespace) (simp add: buildNewStatus_def)
qed

theorem buildNewStatus_whitespace_only_witness:
  "list_all is_whitespace [0x20, 0x9, 0xA, 0xA0, 0x3000]
   \<and> buildNewStatus (js ''2026-01-27T00:00:00.000Z'') (js ''X'') (Some [0x20, 0x9, 0xA, 0xA0, 0x3000]) True
     = js ''2026-01-27: X''
   \<and> buildNewStatus (js ''2026-01-27T00:00:00.000Z'') (js ''X'') None True = js ''2026-01-27: X''"
proof -
  have h: "\<forall>x \<in> set [0x20, 0x9, 0xA, 0xA0, 0x3000 :: 16 word]. is_whitespace x"
    by (simp add: is_whitespace_def)
  have n: "buildNewStatus (js ''2026-01-27T00:00:00.000Z'') (js ''X'') None True = js ''2026-01-27: X''"
    by (simp add: buildNewStatus_def first_part_def js_def)
  from buildNewStatus_whitespace_only
    [of "[0x20, 0x9, 0xA, 0xA0, 0x3000]" "js ''2026-01-27T00:00:00.000Z''" "js ''X''" True] h
  have "buildNewStatus (js ''2026-01-27T00:00:00.000Z'') (js ''X'') (Some [0x20, 0x9, 0xA, 0xA0, 0x3000]) True
        = buildNewStatus (js ''2026-01-27T00:00:00.000Z'') (js ''X'') None True"
    by blast
  with h n show ?thesis by (simp add: list_all_iff)
qed

section \<open>Effects and the cache\<close>

lemma trace_emit: "trace (emit ev w) = trace w @ [ev]"
  by (simp add: emit_def)

lemma cache_emit: "currentStatusFieldId (emit ev w) = currentStatusFieldId w"
  by (simp add: emit_def)

lemma occurrences_emit: "occurrences P (emit ev w) = occurrences P w + (if P ev then 1 else 0)"
  by (simp add: occurrences_def emit_def)

lemma field_id_cached_emit: "field_id_cached fid (emit ev w) = field_id_cached fid w"
  by (simp add: field_id_cached_def cache_emit)

lemma jiraFetch_cache: "jiraFetch e req srv w = (r, w') \<Longrightarrow> currentStatusFieldId w' = currentStatusFieldId w"
  by (auto simp: jiraFetch_def getToken_def Let_def cache_emit split: option.splits reply.splits)

lemma jiraFetch_trace:
  "jiraFetch e req srv w = (r, w') \<Longrightarrow>
   trace w' = trace w @ [ExecToken] \<or> trace w' = trace w @ [ExecToken, Http req]"
  by (auto simp: jiraFetch_def getToken_def Let_def trace_emit split: option.splits reply.splits)

lemma getCurrentStatusFieldId_cached:
  "field_id_cached fid w \<Longrightarrow> getCurrentStatusFieldId e w = (Inr fid, w)"
  by (simp add: getCurrentStatusFieldId_def field_id_cached_def truthy_def)

lemma getCurrentStatus_cached:
  "field_id_cached fid w \<Longrightarrow>
   getCurrentStatus e issue w = (Inr (string_or_null (fields_member issue fid)), w)"
  by (simp add: getCurrentStatus_def getCurrentStatusFieldId_cached)

lemma getCurrentStatusFieldId_trace:
  "getCurrentStatusFieldId e w = (r, w') \<Longrightarrow>
   trace w' = trace w \<or> trace w' = trace w @ [ExecToken] \<or> trace w' = trace w @ [ExecToken, Http GetField]"
  by (auto simp: getCurrentStatusFieldId_def split: if_splits option.splits prod.splits sum.splits
      dest: jiraFetch_trace)


section \<open>Interactive mode: skipping\<close>

lemma interactiveLoop_skipAll:
  "skipAll p \<Longrightarrow>
   interactiveLoop e u d rest p w = (Inr (p\<lparr>skippedCount := skippedCount p + length rest\<rparr>), w)"
proof (induction rest arbitrary: p)
  case Nil
  then show ?case by simp
next
  case (Cons issue rest)
  have "skipAll (p\<lparr>skippedCount := skippedCount p + 1\<rparr>)"
    using Cons.prems by simp
  from Cons.IH [OF this] Cons.prems show ?case
    by (simp add: interactiveStep_def)
qed

text \<open>
  Claim C3. Once the operator answers s, skip or skip all on an issue, that issue and each
  issue after it is counted as skipped, and nothing more happens for them: the loop ends
  in a state that depends on the remaining issues through their number only, with no
  effect after the notice that the rest is skipped (no lookup, display, question or
  request). With three issues and that answer on the first, the summary is Updated: 0,
  Skipped: 3 and the trace holds no request for the second and third.
\<close>

theorem skip_all_skips_the_rest:
  assumes "\<not> skipAll p" and "\<not> applyAll p"
    and "getCurrentStatus e issue w = (Inr cur, w1)"
    and "w2 = displayTicketUpdate issue cur
                (buildNewStatus (clock e (length (trace w1))) u cur d) w1"
    and "operator_answer e (occurrences is_prompt w2) \<in> {js ''s'', js ''skip'', js ''skip all''}"
  shows "interactiveLoop e u d (issue # rest) p w
           = (Inr (p\<lparr>skipAll := True, skippedCount := skippedCount p + 1 + length rest\<rparr>),
              emit (Out SkippingRemaining) (emit Prompt w2))
         \<and> processTicketsInteractive e [issue, issue2, issue3] u d w
           = (Inr (), emit (Out (Summary 0 3)) (emit (Out SkippingRemaining) (emit Prompt w2)))"
proof -
  have ne: "operator_answer e (occurrences is_prompt w2) \<noteq> js ''y''"
    "operator_answer e (occurrences is_prompt w2) \<noteq> js ''yes''"
    "operator_answer e (occurrences is_prompt w2) \<noteq> js ''a''"
    "operator_answer e (occurrences is_prompt w2) \<noteq> js ''all''"
    using assms(5) by (auto simp: js_eq_iff)
  have step: "\<not> skipAll q \<Longrightarrow> \<not> applyAll q \<Longrightarrow> interactiveStep e u d issue q w
      = (Inr (q\<lparr>skipAll := True, skippedCount := skippedCount q + 1\<rparr>),
         emit (Out SkippingRemaining) (emit Prompt w2))" for q
    using assms(3,4,5) ne by (simp add: interactiveStep_def Let_def)
  have loop: "\<not> skipAll q \<Longrightarrow> \<not> applyAll q \<Longrightarrow> interactiveLoop e u d (issue # r) q w
      = (Inr (q\<lparr>skipAll := True, skippedCount := skippedCount q + 1 + length r\<rparr>),
         emit (Out SkippingRemaining) (emit Prompt w2))" for q r
    by (simp add: step interactiveLoop_skipAll)
  show ?thesis
    using loop [of p rest] assms(1,2)
      loop [of "\<lparr>applyAll = False, skipAll = False, updatedCount = 0, skippedCount = 0\<rparr>" "[issue2, issue3]"]
    by (simp add: processTicketsInteractive_def numeral_3_eq_3)
qed

theorem skip_all_skips_the_rest_witness:
  "processTicketsInteractive (demo_env [js ''s''] (\<lambda>r. OkJson ()) [])
     [demo_issue ''RM-1'' None, demo_issue ''RM-2'' None, demo_issue ''RM-3'' None]
     (js ''On track'') False demo_world
   = (Inr (),
      demo_world\<lparr>trace :=
        [Out (TicketUpdate (js ''RM-1'') (js ''Task'') (js ''In Progress'') None (js ''On track'')),
         Prompt, Out SkippingRemaining, Out (Summary 0 3)]\<rparr>)"
proof -
  let ?e = "demo_env [js ''s''] (\<lambda>r. OkJson ()) []"
  let ?p = "\<lparr>applyAll = False, skipAll = False, updatedCount = 0, skippedCount = 0\<rparr>"
  let ?w2 = "displayTicketUpdate (demo_issue ''RM-1'' None) None
                (buildNewStatus (clock ?e (length (trace demo_world))) (js ''On track'') None False) demo_world"
  have c: "field_id_cached (js ''customfield_10010'') demo_world"
    by (simp add: field_id_cached_def demo_world_def js_def)
  have g: "getCurrentStatus ?e (demo_issue ''RM-1'' None) demo_world = (Inr None, demo_world)"
    using getCurrentStatus_cached [OF c, of ?e "demo_issue ''RM-1'' None"]
    by (simp add: fields_member_def demo_issue_def string_or_null_def js_eq_iff)
  have a: "operator_answer ?e (occurrences is_prompt ?w2) \<in> {js ''s'', js ''skip'', js ''skip all''}"
    by (simp add: demo_env_def displayTicketUpdate_def emit_def is_prompt_def
        occurrences_def demo_world_def)
  have w: "?w2 = demo_world\<lparr>trace :=
        [Out (TicketUpdate (js ''RM-1'') (js ''Task'') (js ''In Progress'') None (js ''On track''))]\<rparr>"
    by (simp add: displayTicketUpdate_def emit_def demo_world_def demo_issue_def truthy_def
        buildNewStatus_def)
  from skip_all_skips_the_rest [of ?p ?e "demo_issue ''RM-1'' None" demo_world None demo_world ?w2
      "js ''On track''" False "[]" "demo_issue ''RM-2'' None" "demo_issue ''RM-3'' None", OF _ _ g refl a]
  show ?thesis
    by (simp add: w emit_def)
qed

section \<open>Interactive mode: a failed update\<close>

declare show_number.simps [simp del]

lemma tryUpdate_failed:
  "updateCurrentStatus e (key issue) newStatus (emit (Out (Updating (key issue))) w) = (Inl err, w4) \<Longrightarrow>
   tryUpdate e issue newStatus p w = (p, emit (Out (FailedToUpdate (key issue) err)) w4)"
  by (simp add: tryUpdate_def)

text \<open>
  Claim C2. In interactive mode, when an update is attempted for an issue (the operator
  answered y, yes, a or all, or applyAll was already set) and \<open>updateCurrentStatus\<close>
  throws, the failure is printed with the key of that issue and the error message,
  neither counter changes, and the loop goes on with the next issue.
\<close>

theorem failed_update_is_reported_and_passed_over:
  assumes "\<not> skipAll p"
    and "getCurrentStatus e issue w = (Inr cur, w1)"
    and "newStatus = buildNewStatus (clock e (length (trace w1))) u cur d"
    and "w2 = displayTicketUpdate issue cur newStatus w1"
    and "answer = operator_answer e (occurrences is_prompt w2)"
    and "applyAll p \<or> answer \<in> {js ''y'', js ''yes'', js ''a'', js ''all''}"
    and "w3 = (if applyAll p then w2 else emit Prompt w2)"
    and "updateCurrentStatus e (key issue) newStatus (emit (Out (Updating (key issue))) w3) = (Inl err, w4)"
    and "p' = p\<lparr>applyAll := applyAll p \<or> answer \<in> {js ''a'', js ''all''}\<rparr>"
  shows "interactiveStep e u d issue p w = (Inr p', emit (Out (FailedToUpdate (key issue) err)) w4)
         \<and> updatedCount p' = updatedCount p \<and> skippedCount p' = skippedCount p
         \<and> interactiveLoop e u d (issue # rest) p w
             = interactiveLoop e u d rest p' (emit (Out (FailedToUpdate (key issue) err)) w4)"
proof -
  have step: "interactiveStep e u d issue p w = (Inr p', emit (Out (FailedToUpdate (key issue) err)) w4)"
  proof (cases "applyAll p")
    case True
    then have "p' = p" using assms(9) by simp
    moreover have "tryUpdate e issue newStatus p w2 = (p, emit (Out (FailedToUpdate (key issue) err)) w4)"
      using assms(7,8) True by (simp add: tryUpdate_failed)
    ultimately show ?thesis
      using assms(1,2,3,4) True by (simp add: interactiveStep_def Let_def)
  next
    case False
    then have w3: "w3 = emit Prompt w2" using assms(7) by simp
    have t: "tryUpdate e issue newStatus q w3 = (q, emit (Out (FailedToUpdate (key issue) err)) w4)" for q
      using assms(8) by (rule tryUpdate_failed)
    from False assms(6) consider "answer = js ''y'' \<or> answer = js ''yes''"
      | "answer = js ''a'' \<or> answer = js ''all''" by auto
    then show ?thesis
    proof cases
      case 1
      then have "answer \<noteq> js ''a''" "answer \<noteq> js ''all''" by (auto simp: js_eq_iff)
      then have "p' = p" using assms(9) False by simp
      then show ?thesis
        using assms(1,2) assms(3,4,5) [symmetric] False 1 t [of p] w3 [symmetric]
        by (simp add: interactiveStep_def Let_def)
    next
      case 2
      then have "answer \<noteq> js ''y''" "answer \<noteq> js ''yes''" by (auto simp: js_eq_iff)
      moreover have "p' = p\<lparr>applyAll := True\<rparr>" using assms(9) 2 by auto
      ultimately show ?thesis
        using assms(1,2) assms(3,4,5) [symmetric] False 2 t [of "p\<lparr>applyAll := True\<rparr>"] w3 [symmetric]
        by (simp add: interactiveStep_def Let_def)
    qed
  qed
  moreover have "updatedCount p' = updatedCount p \<and> skippedCount p' = skippedCount p"
    using assms(9) by simp
  ultimately show ?thesis by simp
qed


text \<open>The equations that run the model on a concrete input.\<close>

lemmas run_simps =
  handleUpdate_def isAuthenticated_def processTicketsInteractive_def processTicketsDryRun_def
  interactiveStep_def tryUpdate_def displayTicketUpdate_def updateCurrentStatus_def
  getCurrentStatus_def searchIssues_def getCurrentStatusFieldId_def jiraFetch_def getToken_def
  emit_def occurrences_def is_exec_def is_http_def is_prompt_def truthy_def string_or_null_def
  fields_member_def buildNewStatus_def first_part_def Let_def
  demo_env_def demo_world_def demo_issue_def demo_field_def js_def

lemma demo_world_cached: "field_id_cached (js ''customfield_10010'') demo_world"
  by (simp add: field_id_cached_def demo_world_def js_def)

lemma demo_issue_stored:
  "string_or_null (fields_member (demo_issue k v) (js ''customfield_10010'')) = string_or_null v"
  by (simp add: fields_member_def demo_issue_def js_eq_iff)

lemma string_or_null_simps:
  "string_or_null None = None"
  "string_or_null (Some (JString t)) = Some t"
  "string_or_null (Some JOther) = None"
  by (simp_all add: string_or_null_def)

lemma show_number_500: "show_number 500 = js ''500''"
  by (simp add: show_number.simps js_def)

theorem failed_update_is_reported_and_passed_over_witness:
  "interactiveLoop (demo_env [js ''y'', js ''n''] (\<lambda>r. NotOk 500 (js ''boom'')) []) (js ''On track'') False
     [demo_issue ''RM-1'' None, demo_issue ''RM-2'' None]
     \<lparr>applyAll = False, skipAll = False, updatedCount = 0, skippedCount = 0\<rparr> demo_world
   = (Inr \<lparr>applyAll = False, skipAll = False, updatedCount = 0, skippedCount = 1\<rparr>,
      demo_world\<lparr>trace :=
        [Out (TicketUpdate (js ''RM-1'') (js ''Task'') (js ''In Progress'') None (js ''On track'')),
         Prompt, Out (Updating (js ''RM-1'')), ExecToken,
         Http (PutIssue (js ''RM-1'') (js ''customfield_10010'') (js ''On track'')),
         Out (FailedToUpdate (js ''RM-1'') (js ''Jira API error (500): boom'')),
         Out (TicketUpdate (js ''RM-2'') (js ''Task'') (js ''In Progress'') None (js ''On track'')),
         Prompt, Out (Skipped (js ''RM-2''))]\<rparr>)"
proof -
  let ?e = "demo_env [js ''y'', js ''n''] (\<lambda>r. NotOk 500 (js ''boom'')) []"
  let ?p = "\<lparr>applyAll = False, skipAll = False, updatedCount = 0, skippedCount = 0\<rparr>"
  let ?i1 = "demo_issue ''RM-1'' None" and ?i2 = "demo_issue ''RM-2'' None"
  let ?w2 = "demo_world\<lparr>trace :=
        [Out (TicketUpdate (js ''RM-1'') (js ''Task'') (js ''In Progress'') None (js ''On track''))]\<rparr>"
  let ?w4 = "demo_world\<lparr>trace :=
        [Out (TicketUpdate (js ''RM-1'') (js ''Task'') (js ''In Progress'') None (js ''On track'')),
         Prompt, Out (Updating (js ''RM-1'')), ExecToken,
         Http (PutIssue (js ''RM-1'') (js ''customfield_10010'') (js ''On track''))]\<rparr>"
  have g: "getCurrentStatus ?e ?i1 demo_world = (Inr None, demo_world)"
    using getCurrentStatus_cached [OF demo_world_cached, of ?e ?i1]
    by (simp add: demo_issue_stored string_or_null_simps)
  have n: "js ''On track'' = buildNewStatus (clock ?e (length (trace demo_world))) (js ''On track'') None False"
    by (simp add: buildNewStatus_def)
  have w2: "?w2 = displayTicketUpdate ?i1 None (js ''On track'') demo_world"
    by (simp add: displayTicketUpdate_def emit_def demo_world_def demo_issue_def truthy_def)
  have a: "js ''y'' = operator_answer ?e (occurrences is_prompt ?w2)"
    by (simp add: demo_env_def occurrences_def is_prompt_def demo_world_def)
  have f: "updateCurrentStatus ?e (key ?i1) (js ''On track'') (emit (Out (Updating (key ?i1))) (emit Prompt ?w2))
           = (Inl (js ''Jira API error (500): boom''), ?w4)"
    by (simp add: run_simps show_number_500 [unfolded js_def])
  from failed_update_is_reported_and_passed_over [of ?p ?e ?i1 demo_world None demo_world
      "js ''On track''" "js ''On track''" False ?w2 "js ''y''" "emit Prompt ?w2"
      "js ''Jira API error (500): boom''" ?w4 ?p "[?i2]", OF _ g n w2 a _ _ f]
  have "interactiveLoop ?e (js ''On track'') False [?i1, ?i2] ?p demo_world
        = interactiveLoop ?e (js ''On track'') False [?i2] ?p
            (emit (Out (FailedToUpdate (key ?i1) (js ''Jira API error (500): boom''))) ?w4)"
    by (simp add: js_eq_iff del: interactiveLoop.simps)
  also have "\<dots> = (Inr \<lparr>applyAll = False, skipAll = False, updatedCount = 0, skippedCount = 1\<rparr>,
      demo_world\<lparr>trace :=
        [Out (TicketUpdate (js ''RM-1'') (js ''Task'') (js ''In Progress'') None (js ''On track'')),
         Prompt, Out (Updating (js ''RM-1'')), ExecToken,
         Http (PutIssue (js ''RM-1'') (js ''customfield_10010'') (js ''On track'')),
         Out (FailedToUpdate (js ''RM-1'') (js ''Jira API error (500): boom'')),
         Out (TicketUpdate (js ''RM-2'') (js ''Task'') (js ''In Progress'') None (js ''On track'')),
         Prompt, Out (Skipped (js ''RM-2''))]\<rparr>)"
  proof -
    show ?thesis
      by (simp add: run_simps)
  qed
  finally show ?thesis .
qed

section \<open>Dry-run mode\<close>

lemma is_write_simps [simp]:
  "\<not> is_write ExecToken" "\<not> is_write Prompt" "\<not> is_write (Out c)"
  "\<not> is_write (Http GetField)" "\<not> is_write (Http (GetSearch q f n))"
  "is_write (Http (PutIssue k i v))"
  by (simp_all add: is_write_def)

lemma is_display_simps [simp]:
  "\<not> is_display ExecToken" "\<not> is_display Prompt" "\<not> is_display (Http r)"
  "is_display (Out c) = (case c of TicketUpdate _ _ _ _ _ \<Rightarrow> True | _ \<Rightarrow> False)"
  by (simp_all add: is_display_def)

lemma is_prompt_simps [simp]:
  "\<not> is_prompt ExecToken" "is_prompt Prompt" "\<not> is_prompt (Http r)" "\<not> is_prompt (Out c)"
  by (simp_all add: is_prompt_def)

lemma is_lookup_simps [simp]:
  "\<not> is_lookup ExecToken" "\<not> is_lookup Prompt" "\<not> is_lookup (Out c)"
  "is_lookup (Http GetField)" "\<not> is_lookup (Http (GetSearch q f n))"
  "\<not> is_lookup (Http (PutIssue k i v))"
  by (simp_all add: is_lookup_def)

lemma is_display_shown [simp]: "is_display (shown e fid u d n issue)"
  by (simp add: shown_def Let_def)

lemma getCurrentStatusFieldId_no_write:
  "getCurrentStatusFieldId e w = (r, w') \<Longrightarrow> occurrences is_write w' = occurrences is_write w"
  by (drule getCurrentStatusFieldId_trace) (auto simp: occurrences_def)

lemma getCurrentStatus_no_write:
  "getCurrentStatus e issue w = (r, w') \<Longrightarrow> occurrences is_write w' = occurrences is_write w"
  by (auto simp: getCurrentStatus_def split: prod.splits sum.splits dest: getCurrentStatusFieldId_no_write)

lemma dryRunLoop_no_write:
  "occurrences is_write (snd (dryRunLoop e u d issues w)) = occurrences is_write w"
proof (induction issues arbitrary: w)
  case Nil
  then show ?case by simp
next
  case (Cons issue rest)
  show ?case
  proof (cases "getCurrentStatus e issue w")
    case (Pair r w1)
    then have n: "occurrences is_write w1 = occurrences is_write w"
      by (rule getCurrentStatus_no_write)
    show ?thesis
    proof (cases r)
      case (Inl err)
      with Pair n show ?thesis by simp
    next
      case (Inr cur)
      with Pair n Cons.IH show ?thesis
        by (simp add: displayTicketUpdate_def occurrences_emit)
    qed
  qed
qed

lemma processTicketsDryRun_no_write:
  "occurrences is_write (snd (processTicketsDryRun e issues u d w)) = occurrences is_write w"
proof -
  have "occurrences is_write (snd (dryRunLoop e u d issues (emit (Out DryRunBanner) w)))
        = occurrences is_write w"
    by (simp add: dryRunLoop_no_write occurrences_emit)
  then show ?thesis
    by (auto simp: processTicketsDryRun_def occurrences_emit split: prod.splits sum.splits)
qed

lemma displayTicketUpdate_cached:
  "displayTicketUpdate issue (string_or_null (fields_member issue fid))
     (buildNewStatus (clock e n) u (string_or_null (fields_member issue fid)) d) w
   = emit (shown e fid u d n issue) w"
  by (simp add: displayTicketUpdate_def shown_def proposed_def Let_def)

lemma dryRunLoop_cached:
  "field_id_cached fid w \<Longrightarrow>
   dryRunLoop e u d issues w
     = (Inr (), w\<lparr>trace := trace w @ shown_all e fid u d (length (trace w)) issues\<rparr>)"
proof (induction issues arbitrary: w)
  case Nil
  then show ?case by simp
next
  case (Cons issue rest)
  let ?w1 = "emit (shown e fid u d (length (trace w)) issue) w"
  have "field_id_cached fid ?w1"
    using Cons.prems by (simp add: field_id_cached_emit)
  from Cons.IH [OF this] Cons.prems show ?case
    by (simp add: getCurrentStatus_cached displayTicketUpdate_cached trace_emit) (simp add: emit_def)
qed

lemma length_shown_all: "length (shown_all e fid u d n issues) = length issues"
  by (induction issues arbitrary: n) simp_all

text \<open>
  Dry-run mode never sends an update request, whatever the issues hold (the operator is
  not asked). When the cache holds a field identifier that is not empty, it shows every
  one of the N issues, each with the value read from it and the value composed for it,
  in the order of the list, and then returns after printing the count N.
\<close>

lemma dry_run_shows_all_and_writes_nothing:
  "occurrences is_write (snd (processTicketsDryRun e issues u d w0)) = occurrences is_write w0
   \<and> (field_id_cached fid w \<longrightarrow>
        processTicketsDryRun e issues u d w
          = (Inr (), w\<lparr>trace := trace w @ [Out DryRunBanner]
                          @ shown_all e fid u d (Suc (length (trace w))) issues
                          @ [Out (WouldUpdate (length issues))]\<rparr>)
        \<and> length (shown_all e fid u d (Suc (length (trace w))) issues) = length issues)"
proof -
  have "processTicketsDryRun e issues u d w
          = (Inr (), w\<lparr>trace := trace w @ [Out DryRunBanner]
                          @ shown_all e fid u d (Suc (length (trace w))) issues
                          @ [Out (WouldUpdate (length issues))]\<rparr>)"
    if c: "field_id_cached fid w"
  proof -
    have "field_id_cached fid (emit (Out DryRunBanner) w)"
      using c by (simp add: field_id_cached_emit)
    from dryRunLoop_cached [OF this, of e u d issues] show ?thesis
      by (simp add: processTicketsDryRun_def trace_emit) (simp add: emit_def)
  qed
  then show ?thesis
    by (simp add: processTicketsDryRun_no_write length_shown_all)
qed


lemma dry_run_shows_all_and_writes_nothing_example:
  "processTicketsDryRun (demo_env [] (\<lambda>r. OkJson ()) [])
     [demo_issue ''RM-1'' (Some (JString (js ''2026-01-20: Review done''))), demo_issue ''RM-2'' None]
     (js ''On track'') True demo_world
   = (Inr (),
      demo_world\<lparr>trace :=
        [Out DryRunBanner,
         Out (TicketUpdate (js ''RM-1'') (js ''Task'') (js ''In Progress'')
                (Some (js ''2026-01-20: Review done''))
                (js ''2026-01-27: On track'' @ [0xA] @ js ''2026-01-20: Review done'')),
         Out (TicketUpdate (js ''RM-2'') (js ''Task'') (js ''In Progress'') None
                (js ''2026-01-27: On track'')),
         Out (WouldUpdate 2)]\<rparr>)"
proof -
  let ?e = "demo_env [] (\<lambda>r. OkJson ()) []"
  let ?is = "[demo_issue ''RM-1'' (Some (JString (js ''2026-01-20: Review done''))), demo_issue ''RM-2'' None]"
  from dry_run_shows_all_and_writes_nothing [of ?e ?is "js ''On track''" True demo_world
      "js ''customfield_10010''" demo_world] demo_world_cached
  have "processTicketsDryRun ?e ?is (js ''On track'') True demo_world
          = (Inr (), demo_world\<lparr>trace := trace demo_world @ [Out DryRunBanner]
                          @ shown_all ?e (js ''customfield_10010'') (js ''On track'') True
                              (Suc (length (trace demo_world))) ?is
                          @ [Out (WouldUpdate (length ?is))]\<rparr>)"
    by blast
  then show ?thesis
    by (simp add: shown_def proposed_def run_simps trim_def is_whitespace_def)
qed


section \<open>Interactive mode with a resolved field identifier\<close>

lemma shown_is_output [simp]:
  "\<not> is_prompt (shown e fid u d n issue)" "\<not> is_write (shown e fid u d n issue)"
  "\<not> is_lookup (shown e fid u d n issue)" "\<not> is_http (shown e fid u d n issue)"
  "\<not> is_exec (shown e fid u d n issue)"
  by (simp_all add: shown_def Let_def is_http_def is_exec_def)

lemma present_cached:
  "field_id_cached fid w \<Longrightarrow>
   displayTicketUpdate issue (string_or_null (fields_member issue fid))
     (buildNewStatus (clock e (length (trace w))) u (string_or_null (fields_member issue fid)) d) w
   = emit (shown e fid u d (length (trace w)) issue) w"
  by (simp add: displayTicketUpdate_cached)

lemma updateCurrentStatus_cached_ok:
  assumes "field_id_cached fid w"
    and "cloudflared_token e (occurrences is_exec w) \<noteq> None"
    and "put_reply e (occurrences is_http w) (PutIssue k fid v) = OkJson ()"
  shows "updateCurrentStatus e k v w = (Inr (), emit (Http (PutIssue k fid v)) (emit ExecToken w))"
  using assms
  by (auto simp: updateCurrentStatus_def getCurrentStatusFieldId_cached jiraFetch_def getToken_def
      Let_def occurrences_emit is_http_def)

lemma tryUpdate_cached_ok:
  assumes "field_id_cached fid w"
    and "\<forall>n. cloudflared_token e n \<noteq> None"
    and "\<forall>n r. put_reply e n r = OkJson ()"
  shows "tryUpdate e issue v p w
         = (p\<lparr>updatedCount := updatedCount p + 1\<rparr>,
            emit (Out (Updated (key issue)))
              (emit (Http (PutIssue (key issue) fid v))
                (emit ExecToken (emit (Out (Updating (key issue))) w))))"
proof -
  have "field_id_cached fid (emit (Out (Updating (key issue))) w)"
    using assms(1) by (simp add: field_id_cached_emit)
  from updateCurrentStatus_cached_ok [OF this, of e "key issue" v] assms(2,3)
  show ?thesis by (simp add: tryUpdate_def)
qed

lemma step_declined:
  assumes "field_id_cached fid w" and "\<not> skipAll p" and "\<not> applyAll p"
    and "operator_answer e (occurrences is_prompt w) = js ''n''"
  shows "interactiveStep e u d issue p w
         = (Inr (p\<lparr>skippedCount := skippedCount p + 1\<rparr>),
            emit (Out (Skipped (key issue)))
              (emit Prompt (emit (shown e fid u d (length (trace w)) issue) w)))"
  using assms
  by (simp add: interactiveStep_def getCurrentStatus_cached present_cached Let_def
      occurrences_emit js_eq_iff)

lemma step_apply_all:
  assumes "field_id_cached fid w" and "\<not> skipAll p" and "\<not> applyAll p"
    and "operator_answer e (occurrences is_prompt w) = js ''a''"
    and "\<forall>n. cloudflared_token e n \<noteq> None"
    and "\<forall>n r. put_reply e n r = OkJson ()"
  shows "interactiveStep e u d issue p w
         = (Inr (p\<lparr>applyAll := True, updatedCount := updatedCount p + 1\<rparr>),
            emit (Out (Updated (key issue)))
              (emit (Http (PutIssue (key issue) fid (proposed e fid u d (length (trace w)) issue)))
                (emit ExecToken (emit (Out (Updating (key issue)))
                  (emit Prompt (emit (shown e fid u d (length (trace w)) issue) w))))))"
proof -
  let ?w3 = "emit Prompt (emit (shown e fid u d (length (trace w)) issue) w)"
  have "field_id_cached fid ?w3"
    using assms(1) by (simp add: field_id_cached_emit)
  from tryUpdate_cached_ok [OF this assms(5,6)] assms(1-4) show ?thesis
    by (simp add: interactiveStep_def getCurrentStatus_cached present_cached Let_def
        occurrences_emit js_eq_iff proposed_def)
qed

lemma step_auto_apply:
  assumes "field_id_cached fid w" and "\<not> skipAll p" and "applyAll p"
    and "\<forall>n. cloudflared_token e n \<noteq> None"
    and "\<forall>n r. put_reply e n r = OkJson ()"
  shows "interactiveStep e u d issue p w
         = (Inr (p\<lparr>updatedCount := updatedCount p + 1\<rparr>),
            emit (Out (Updated (key issue)))
              (emit (Http (PutIssue (key issue) fid (proposed e fid u d (length (trace w)) issue)))
                (emit ExecToken (emit (Out (Updating (key issue)))
                  (emit (shown e fid u d (length (trace w)) issue) w)))))"
proof -
  let ?w2 = "emit (shown e fid u d (length (trace w)) issue) w"
  have "field_id_cached fid ?w2"
    using assms(1) by (simp add: field_id_cached_emit)
  from tryUpdate_cached_ok [OF this assms(4,5)] assms(1-3) show ?thesis
    by (simp add: interactiveStep_def getCurrentStatus_cached present_cached Let_def proposed_def)
qed

text \<open>
  Three issues, every update succeeding, the operator answering n to the first and a to
  the second, and a cache that holds a field identifier that is not empty: the first is
  skipped, the second is asked about and updated, the third is updated with no question
  put to the operator, and the summary is Updated: 2, Skipped: 1.
\<close>

lemma decline_then_apply_all:
  assumes "field_id_cached fid w"
    and "\<forall>n. cloudflared_token e n \<noteq> None"
    and "\<forall>n r. put_reply e n r = OkJson ()"
    and "operator_answer e (occurrences is_prompt w) = js ''n''"
    and "operator_answer e (Suc (occurrences is_prompt w)) = js ''a''"
  shows "processTicketsInteractive e [i1, i2, i3] u d w
         = (Inr (),
            w\<lparr>trace := trace w @
               [shown e fid u d (length (trace w)) i1, Prompt, Out (Skipped (key i1)),
                shown e fid u d (length (trace w) + 3) i2, Prompt, Out (Updating (key i2)),
                ExecToken, Http (PutIssue (key i2) fid (proposed e fid u d (length (trace w) + 3) i2)),
                Out (Updated (key i2)),
                shown e fid u d (length (trace w) + 9) i3, Out (Updating (key i3)),
                ExecToken, Http (PutIssue (key i3) fid (proposed e fid u d (length (trace w) + 9) i3)),
                Out (Updated (key i3)),
                Out (Summary 2 1)]\<rparr>)"
proof -
  let ?p0 = "\<lparr>applyAll = False, skipAll = False, updatedCount = 0, skippedCount = 0\<rparr>"
  let ?n = "length (trace w)"
  let ?wa = "emit (Out (Skipped (key i1))) (emit Prompt (emit (shown e fid u d ?n i1) w))"
  let ?wb = "emit (Out (Updated (key i2)))
              (emit (Http (PutIssue (key i2) fid (proposed e fid u d (?n + 3) i2)))
                (emit ExecToken (emit (Out (Updating (key i2)))
                  (emit Prompt (emit (shown e fid u d (?n + 3) i2) ?wa)))))"
  let ?wc = "emit (Out (Updated (key i3)))
              (emit (Http (PutIssue (key i3) fid (proposed e fid u d (?n + 9) i3)))
                (emit ExecToken (emit (Out (Updating (key i3)))
                  (emit (shown e fid u d (?n + 9) i3) ?wb))))"
  let ?p1 = "\<lparr>applyAll = False, skipAll = False, updatedCount = 0, skippedCount = 1\<rparr>"
  let ?p2 = "\<lparr>applyAll = True, skipAll = False, updatedCount = 1, skippedCount = 1\<rparr>"
  let ?p3 = "\<lparr>applyAll = True, skipAll = False, updatedCount = 2, skippedCount = 1\<rparr>"
  have s1: "interactiveStep e u d i1 ?p0 w = (Inr ?p1, ?wa)"
    using step_declined [OF assms(1) _ _ assms(4), of ?p0 u d i1] by simp
  have ca: "field_id_cached fid ?wa" and la: "length (trace ?wa) = ?n + 3"
    and pa: "occurrences is_prompt ?wa = Suc (occurrences is_prompt w)"
    using assms(1) by (simp_all add: field_id_cached_emit trace_emit occurrences_emit)
  have s2: "interactiveStep e u d i2 ?p1 ?wa = (Inr ?p2, ?wb)"
    using step_apply_all [OF ca _ _ _ assms(2,3), of ?p1 u d i2] assms(5)
    by (simp add: la pa)
  have cb: "field_id_cached fid ?wb" and lb: "length (trace ?wb) = ?n + 9"
    using assms(1) by (simp_all add: field_id_cached_emit trace_emit)
  have s3: "interactiveStep e u d i3 ?p2 ?wb = (Inr ?p3, ?wc)"
    using step_auto_apply [OF cb _ _ assms(2,3), of ?p2 u d i3]
    by (simp add: lb)
  have "interactiveLoop e u d [i1, i2, i3] ?p0 w = (Inr ?p3, ?wc)"
    by (simp only: interactiveLoop.simps s1 s2 s3 prod.case sum.case)
  then have "processTicketsInteractive e [i1, i2, i3] u d w = (Inr (), emit (Out (Summary 2 1)) ?wc)"
    by (simp add: processTicketsInteractive_def)
  then show ?thesis
    by (simp add: emit_def)
qed


lemma decline_then_apply_all_example:
  "processTicketsInteractive (demo_env [js ''n'', js ''a''] (\<lambda>r. OkJson ()) [])
     [demo_issue ''RM-1'' None, demo_issue ''RM-2'' (Some (JString (js ''old''))), demo_issue ''RM-3'' None]
     (js ''On track'') True demo_world
   = (Inr (),
      demo_world\<lparr>trace :=
        [Out (TicketUpdate (js ''RM-1'') (js ''Task'') (js ''In Progress'') None (js ''2026-01-27: On track'')),
         Prompt, Out (Skipped (js ''RM-1'')),
         Out (TicketUpdate (js ''RM-2'') (js ''Task'') (js ''In Progress'') (Some (js ''old''))
                (js ''2026-01-27: On track'' @ [0xA] @ js ''old'')),
         Prompt, Out (Updating (js ''RM-2'')), ExecToken,
         Http (PutIssue (js ''RM-2'') (js ''customfield_10010'')
                (js ''2026-01-27: On track'' @ [0xA] @ js ''old'')),
         Out (Updated (js ''RM-2'')),
         Out (TicketUpdate (js ''RM-3'') (js ''Task'') (js ''In Progress'') None (js ''2026-01-27: On track'')),
         Out (Updating (js ''RM-3'')), ExecToken,
         Http (PutIssue (js ''RM-3'') (js ''customfield_10010'') (js ''2026-01-27: On track'')),
         Out (Updated (js ''RM-3'')),
         Out (Summary 2 1)]\<rparr>)"
proof -
  let ?e = "demo_env [js ''n'', js ''a''] (\<lambda>r. OkJson ()) []"
  have t: "\<forall>n. cloudflared_token ?e n \<noteq> None" and r: "\<forall>n r. put_reply ?e n r = OkJson ()"
    by (simp_all add: demo_env_def)
  have a1: "operator_answer ?e (occurrences is_prompt demo_world) = js ''n''"
    and a2: "operator_answer ?e (Suc (occurrences is_prompt demo_world)) = js ''a''"
    by (simp_all add: demo_env_def occurrences_def demo_world_def)
  show ?thesis
    unfolding decline_then_apply_all [OF demo_world_cached t r a1 a2]
    by (simp add: shown_def proposed_def run_simps trim_def is_whitespace_def)
qed


section \<open>The command\<close>

lemma isAuthenticated_world: "snd (isAuthenticated e w) = emit ExecToken w"
  by (simp add: isAuthenticated_def getToken_def Let_def split: option.splits)

text \<open>
  Claim C10. When the search succeeds with an empty list, the command prints that no
  tickets were found and the query, and returns (status 0). Neither run mode is entered:
  after the search nothing but these lines is added, so no value is read, no question
  is asked, no update is sent and no summary is printed.
\<close>

theorem no_tickets_found:
  assumes "isAuthenticated e w = (True, w1)"
    and "searchIssues e (jql opts) (emit (Out Searching) w1) = (Inr [], w2)"
  shows "handleUpdate e u opts w
         = (Returned, w2\<lparr>trace := trace w2 @ [Out (Found 0), Out NoTicketsFound, Out (JqlLine (jql opts))]\<rparr>)
         \<and> exit_status (fst (handleUpdate e u opts w)) = 0"
  using assms by (simp add: handleUpdate_def exit_status_def emit_def)

theorem no_tickets_found_witness:
  "handleUpdate (demo_env [] (\<lambda>r. OkJson ()) []) (js ''On track'')
     \<lparr>jql = js ''project = RM'', dryRun = False, datePrefix = True\<rparr> initial_world
   = (Returned,
      \<lparr>currentStatusFieldId = Some (js ''customfield_10010''),
       trace = [ExecToken, Out Searching, ExecToken, Http GetField, ExecToken,
                Http (GetSearch (js ''project = RM'') (js ''summary,status,customfield_10010'') 100),
                Out (Found 0), Out NoTicketsFound, Out (JqlLine (js ''project = RM''))]\<rparr>)"
proof -
  let ?e = "demo_env [] (\<lambda>r. OkJson ()) []"
  let ?o = "\<lparr>jql = js ''project = RM'', dryRun = False, datePrefix = True\<rparr>"
  let ?w1 = "\<lparr>currentStatusFieldId = None, trace = [ExecToken]\<rparr>"
  let ?w2 = "\<lparr>currentStatusFieldId = Some (js ''customfield_10010''),
       trace = [ExecToken, Out Searching, ExecToken, Http GetField, ExecToken,
                Http (GetSearch (js ''project = RM'') (js ''summary,status,customfield_10010'') 100)]\<rparr>"
  have a: "isAuthenticated ?e initial_world = (True, ?w1)"
    by (simp add: run_simps initial_world_def)
  have s: "searchIssues ?e (jql ?o) (emit (Out Searching) ?w1) = (Inr [], ?w2)"
    by (simp add: run_simps)
  from no_tickets_found [OF a s, of "js ''On track''"] show ?thesis
    by simp
qed

section \<open>How the command ends\<close>

lemma is_per_issue_simps [simp]:
  "\<not> is_per_issue ExecToken" "is_per_issue Prompt"
  "\<not> is_per_issue (Http GetField)" "\<not> is_per_issue (Http (GetSearch q f n))"
  "is_per_issue (Http (PutIssue k i v))"
  "is_per_issue (Out c) = (case c of TicketUpdate _ _ _ _ _ \<Rightarrow> True | _ \<Rightarrow> False)"
  by (simp_all add: is_per_issue_def)

lemma getCurrentStatusFieldId_quiet:
  "getCurrentStatusFieldId e w = (r, w') \<Longrightarrow> occurrences is_per_issue w' = occurrences is_per_issue w"
  by (drule getCurrentStatusFieldId_trace) (auto simp: occurrences_def)

lemma searchIssues_quiet:
  assumes "searchIssues e q w = (r, w')"
  shows "occurrences is_per_issue w' = occurrences is_per_issue w"
proof (cases "getCurrentStatusFieldId e w")
  case (Pair r1 w1)
  then have n: "occurrences is_per_issue w1 = occurrences is_per_issue w"
    by (rule getCurrentStatusFieldId_quiet)
  show ?thesis
  proof (cases r1)
    case (Inl err)
    with assms Pair n show ?thesis by (simp add: searchIssues_def)
  next
    case (Inr fid)
    show ?thesis
    proof (cases "well_formed q")
      case False
      with assms Pair Inr n show ?thesis by (simp add: searchIssues_def)
    next
      case True
      with assms Pair Inr
      have "jiraFetch e (GetSearch q (js ''summary,status,'' @ fid) 100)
              (\<lambda>n. search_reply e n (GetSearch q (js ''summary,status,'' @ fid) 100)) w1 = (r, w')"
        by (simp add: searchIssues_def Let_def)
      from jiraFetch_trace [OF this] n show ?thesis
        by (auto simp: occurrences_def)
    qed
  qed
qed

lemma getCurrentStatusFieldId_Inr_cache:
  "getCurrentStatusFieldId e w = (Inr fid, w') \<Longrightarrow> currentStatusFieldId w' = Some fid"
  by (auto simp: getCurrentStatusFieldId_def truthy_def
      split: if_splits option.splits prod.splits sum.splits)

lemma searchIssues_Inr_cache:
  "searchIssues e q w = (Inr found, w') \<Longrightarrow> \<exists>fid. currentStatusFieldId w' = Some fid"
  by (auto simp: searchIssues_def Let_def split: prod.splits sum.splits if_splits
      dest!: getCurrentStatusFieldId_Inr_cache jiraFetch_cache)

lemma updateCurrentStatus_cached:
  "field_id_cached fid w \<Longrightarrow> updateCurrentStatus e k v w = (r, w') \<Longrightarrow> field_id_cached fid w'"
  by (auto simp: updateCurrentStatus_def getCurrentStatusFieldId_cached Let_def field_id_cached_def
      split: prod.splits sum.splits dest: jiraFetch_cache)

lemma tryUpdate_cached:
  "field_id_cached fid w \<Longrightarrow> tryUpdate e issue v p w = (p', w') \<Longrightarrow> field_id_cached fid w'"
proof -
  assume c: "field_id_cached fid w" and t: "tryUpdate e issue v p w = (p', w')"
  obtain r w1 where u: "updateCurrentStatus e (key issue) v (emit (Out (Updating (key issue))) w) = (r, w1)"
    by (cases "updateCurrentStatus e (key issue) v (emit (Out (Updating (key issue))) w)")
  have "field_id_cached fid (emit (Out (Updating (key issue))) w)"
    using c by (simp add: field_id_cached_emit)
  from updateCurrentStatus_cached [OF this u] have "field_id_cached fid w1" .
  with t u show ?thesis
    by (cases r) (auto simp: tryUpdate_def field_id_cached_emit)
qed

lemma interactiveStep_cached:
  assumes "field_id_cached fid w"
  shows "\<exists>p' w'. interactiveStep e u d issue p w = (Inr p', w') \<and> field_id_cached fid w'"
proof (cases "skipAll p")
  case True
  with assms show ?thesis by (simp add: interactiveStep_def)
next
  case False
  let ?new = "buildNewStatus (clock e (length (trace w))) u (string_or_null (fields_member issue fid)) d"
  let ?w2 = "emit (shown e fid u d (length (trace w)) issue) w"
  have c2: "field_id_cached fid ?w2" and c3: "field_id_cached fid (emit Prompt ?w2)"
    using assms by (simp_all add: field_id_cached_emit)
  have t: "\<exists>p' w'. tryUpdate e issue ?new q w0 = (p', w') \<and> field_id_cached fid w'"
    if "field_id_cached fid w0" for q w0
    using tryUpdate_cached [OF that] by (cases "tryUpdate e issue ?new q w0") blast
  from t [OF c2, of p] obtain pa wa where
    ta: "tryUpdate e issue ?new p ?w2 = (pa, wa)" "field_id_cached fid wa" by blast
  from t [OF c3, of p] obtain pb wb where
    tb: "tryUpdate e issue ?new p (emit Prompt ?w2) = (pb, wb)" "field_id_cached fid wb" by blast
  from t [OF c3, of "p\<lparr>applyAll := True\<rparr>"] obtain pc wc where
    tc: "tryUpdate e issue ?new (p\<lparr>applyAll := True\<rparr>) (emit Prompt ?w2) = (pc, wc)"
      "field_id_cached fid wc" by blast
  show ?thesis
    using False assms ta tb tc c3
    by (simp add: interactiveStep_def getCurrentStatus_cached present_cached Let_def
        field_id_cached_emit)
qed

lemma interactiveLoop_cached:
  "field_id_cached fid w \<Longrightarrow>
   \<exists>p' w'. interactiveLoop e u d issues p w = (Inr p', w') \<and> field_id_cached fid w'"
proof (induction issues arbitrary: p w)
  case Nil
  then show ?case by simp
next
  case (Cons issue rest)
  from interactiveStep_cached [OF Cons.prems, of e u d issue p] obtain p1 w1 where
    s: "interactiveStep e u d issue p w = (Inr p1, w1)" and c: "field_id_cached fid w1" by blast
  from Cons.IH [OF c, of p1] s show ?case by simp
qed

lemma processTicketsInteractive_cached:
  "field_id_cached fid w \<Longrightarrow> \<exists>w'. processTicketsInteractive e issues u d w = (Inr (), w')"
proof -
  assume "field_id_cached fid w"
  from interactiveLoop_cached [OF this, of e u d issues
      "\<lparr>applyAll = False, skipAll = False, updatedCount = 0, skippedCount = 0\<rparr>"]
  show ?thesis by (auto simp: processTicketsInteractive_def)
qed

lemma processTicketsDryRun_cached:
  "field_id_cached fid w \<Longrightarrow> \<exists>w'. processTicketsDryRun e issues u d w = (Inr (), w')"
proof -
  assume "field_id_cached fid w"
  then have "field_id_cached fid (emit (Out DryRunBanner) w)"
    by (simp add: field_id_cached_emit)
  from dryRunLoop_cached [OF this, of e u d issues] show ?thesis
    by (simp add: processTicketsDryRun_def)
qed



text \<open>
  What the command does elsewhere, for an authenticated process: when the search throws,
  it prints the failure and exits with status 1 in the state the search left, in which
  no issue has been shown, asked about or updated. When the search succeeds and leaves
  a field identifier that is not empty in the cache, the command ends with status 0,
  whatever the replies to the update requests are.
\<close>

lemma search_failure_is_fatal_else_exit_0:
  assumes "isAuthenticated e w = (True, w1)"
  shows "(searchIssues e (jql opts) (emit (Out Searching) w1) = (Inl err, w2) \<longrightarrow>
            handleUpdate e u opts w
              = (ProcessExit 1, w2\<lparr>trace := trace w2 @ [Out SearchFailed, Out (ErrorLine err)]\<rparr>)
            \<and> occurrences is_per_issue (snd (handleUpdate e u opts w)) = occurrences is_per_issue w)
         \<and> (searchIssues e (jql opts) (emit (Out Searching) w1) = (Inr found, w2)
              \<and> currentStatusFieldId w2 \<noteq> Some [] \<longrightarrow>
            exit_status (fst (handleUpdate e u opts w)) = 0)"
proof (intro conjI impI)
  assume s: "searchIssues e (jql opts) (emit (Out Searching) w1) = (Inl err, w2)"
  show h: "handleUpdate e u opts w
         = (ProcessExit 1, w2\<lparr>trace := trace w2 @ [Out SearchFailed, Out (ErrorLine err)]\<rparr>)"
    using assms s by (simp add: handleUpdate_def emit_def)
  have "w1 = emit ExecToken w"
    using isAuthenticated_world [of e w] assms by simp
  then have "occurrences is_per_issue (emit (Out Searching) w1) = occurrences is_per_issue w"
    by (simp add: occurrences_emit)
  with searchIssues_quiet [OF s] have "occurrences is_per_issue w2 = occurrences is_per_issue w"
    by simp
  then show "occurrences is_per_issue (snd (handleUpdate e u opts w)) = occurrences is_per_issue w"
    by (simp add: h occurrences_def)
next
  assume "searchIssues e (jql opts) (emit (Out Searching) w1) = (Inr found, w2)
          \<and> currentStatusFieldId w2 \<noteq> Some []"
  then have s: "searchIssues e (jql opts) (emit (Out Searching) w1) = (Inr found, w2)"
    and n: "currentStatusFieldId w2 \<noteq> Some []" by simp_all
  from searchIssues_Inr_cache [OF s] n obtain fid where c: "field_id_cached fid w2"
    by (auto simp: field_id_cached_def)
  let ?w4 = "emit (Out (JqlLine (jql opts))) (emit (Out (Found (length found))) w2)"
  have c4: "field_id_cached fid ?w4"
    using c by (simp add: field_id_cached_emit)
  from processTicketsDryRun_cached [OF c4, of e found u "datePrefix opts"] obtain wd where
    d: "processTicketsDryRun e found u (datePrefix opts) ?w4 = (Inr (), wd)" by blast
  from processTicketsInteractive_cached [OF c4, of e found u "datePrefix opts"] obtain wi where
    i: "processTicketsInteractive e found u (datePrefix opts) ?w4 = (Inr (), wi)" by blast
  show "exit_status (fst (handleUpdate e u opts w)) = 0"
    using assms s d i by (simp add: handleUpdate_def exit_status_def Let_def)
qed

text \<open>
  Two concrete runs: every update is answered with status 500 and the operator asks for
  all, the query succeeds and the command still ends with status 0; and a run whose
  query is malformed ends with status 1 before any issue is touched.
\<close>

lemma search_failure_is_fatal_else_exit_0_example:
  "exit_status (fst (handleUpdate
      (demo_env [js ''a''] (\<lambda>r. NotOk 500 (js ''boom'')) [demo_issue ''RM-1'' None, demo_issue ''RM-2'' None])
      (js ''On track'') \<lparr>jql = js ''project = RM'', dryRun = False, datePrefix = False\<rparr> initial_world)) = 0
   \<and> handleUpdate (demo_env [] (\<lambda>r. OkJson ()) [demo_issue ''RM-1'' None])
        (js ''On track'') \<lparr>jql = [0xD800], dryRun = False, datePrefix = False\<rparr> initial_world
      = (ProcessExit 1,
         \<lparr>currentStatusFieldId = Some (js ''customfield_10010''),
          trace = [ExecToken, Out Searching, ExecToken, Http GetField,
                   Out SearchFailed, Out (ErrorLine (js ''URI malformed''))]\<rparr>)"
proof -
  let ?e = "demo_env [js ''a''] (\<lambda>r. NotOk 500 (js ''boom'')) [demo_issue ''RM-1'' None, demo_issue ''RM-2'' None]"
  let ?o = "\<lparr>jql = js ''project = RM'', dryRun = False, datePrefix = False\<rparr>"
  let ?f = "demo_env [] (\<lambda>r. OkJson ()) [demo_issue ''RM-1'' None]"
  let ?q = "\<lparr>jql = [0xD800], dryRun = False, datePrefix = False\<rparr>"
  let ?w1 = "\<lparr>currentStatusFieldId = None, trace = [ExecToken]\<rparr>"
  let ?w2 = "\<lparr>currentStatusFieldId = Some (js ''customfield_10010''),
       trace = [ExecToken, Out Searching, ExecToken, Http GetField, ExecToken,
                Http (GetSearch (js ''project = RM'') (js ''summary,status,customfield_10010'') 100)]\<rparr>"
  let ?w3 = "\<lparr>currentStatusFieldId = Some (js ''customfield_10010''),
       trace = [ExecToken, Out Searching, ExecToken, Http GetField]\<rparr>"
  have a: "isAuthenticated ?e initial_world = (True, ?w1)"
    and b: "isAuthenticated ?f initial_world = (True, ?w1)"
    by (simp_all add: run_simps initial_world_def)
  have s: "searchIssues ?e (jql ?o) (emit (Out Searching) ?w1)
           = (Inr [demo_issue ''RM-1'' None, demo_issue ''RM-2'' None], ?w2)"
    by (simp add: run_simps)
  have n: "currentStatusFieldId ?w2 \<noteq> Some []"
    by (simp add: js_def)
  have t: "searchIssues ?f (jql ?q) (emit (Out Searching) ?w1) = (Inl (js ''URI malformed''), ?w3)"
    by (simp add: run_simps)
  have "exit_status (fst (handleUpdate ?e (js ''On track'') ?o initial_world)) = 0"
    using search_failure_is_fatal_else_exit_0 [OF a,
        where opts = ?o and u = "js ''On track''" and ?w2.0 = ?w2
          and found = "[demo_issue ''RM-1'' None, demo_issue ''RM-2'' None]"] s n
    by blast
  moreover have "handleUpdate ?f (js ''On track'') ?q initial_world
      = (ProcessExit 1, ?w3\<lparr>trace := trace ?w3 @ [Out SearchFailed, Out (ErrorLine (js ''URI malformed''))]\<rparr>)"
    using search_failure_is_fatal_else_exit_0 [OF b,
        where opts = ?q and u = "js ''On track''" and ?w2.0 = ?w3 and err = "js ''URI malformed''"] t
    by blast
  ultimately show ?thesis
    by simp
qed

section \<open>The cache of the field identifier\<close>

lemma jiraFetch_cached:
  "field_id_cached fid w \<Longrightarrow> jiraFetch e req srv w = (r, w') \<Longrightarrow> field_id_cached fid w'"
  by (auto simp: field_id_cached_def dest: jiraFetch_cache)

lemma searchIssues_cached_trace:
  assumes "field_id_cached fid w"
  shows "trace (snd (searchIssues e q w))
           \<in> {trace w, trace w @ [ExecToken],
              trace w @ [ExecToken, Http (GetSearch q (js ''summary,status,'' @ fid) 100)]}
         \<and> field_id_cached fid (snd (searchIssues e q w))"
proof (cases "well_formed q")
  case False
  with assms show ?thesis
    by (simp add: searchIssues_def getCurrentStatusFieldId_cached)
next
  case True
  let ?req = "GetSearch q (js ''summary,status,'' @ fid) 100"
  obtain r w' where f: "jiraFetch e ?req (\<lambda>n. search_reply e n ?req) w = (r, w')"
    by (cases "jiraFetch e ?req (\<lambda>n. search_reply e n ?req) w")
  then have "searchIssues e q w = (r, w')"
    using assms True by (simp add: searchIssues_def getCurrentStatusFieldId_cached Let_def)
  with jiraFetch_trace [OF f] jiraFetch_cached [OF assms f] show ?thesis
    by auto
qed

lemma updateCurrentStatus_cached_trace:
  assumes "field_id_cached fid w"
  shows "trace (snd (updateCurrentStatus e k v w))
           \<in> {trace w @ [ExecToken], trace w @ [ExecToken, Http (PutIssue k fid v)]}
         \<and> field_id_cached fid (snd (updateCurrentStatus e k v w))"
proof -
  let ?req = "PutIssue k fid v"
  obtain r w' where f: "jiraFetch e ?req (\<lambda>n. put_reply e n ?req) w = (r, w')"
    by (cases "jiraFetch e ?req (\<lambda>n. put_reply e n ?req) w")
  then have "snd (updateCurrentStatus e k v w) = w'"
    using assms by (cases r) (simp_all add: updateCurrentStatus_def getCurrentStatusFieldId_cached Let_def)
  with jiraFetch_trace [OF f] jiraFetch_cached [OF assms f] show ?thesis
    by auto
qed


text \<open>
  For every other identifier the cache works. Once \<open>getCurrentStatusFieldId\<close> has
  resolved an identifier that is not the empty string, the cache holds it; and in every
  state whose cache holds it, the
  next resolution returns it with no effect, a read takes the value of that member with
  no effect, a search names it in its \<open>fields\<close> parameter and an update in its body,
  neither with a field lookup, and both leave the cache as it is.
\<close>

lemma field_id_is_resolved_once:
  "(getCurrentStatusFieldId e w0 = (Inr fid, w1) \<and> fid \<noteq> [] \<longrightarrow> field_id_cached fid w1)
   \<and> (field_id_cached fid w \<longrightarrow>
        getCurrentStatusFieldId e w = (Inr fid, w)
        \<and> getCurrentStatus e issue w = (Inr (string_or_null (fields_member issue fid)), w)
        \<and> trace (snd (searchIssues e q w))
            \<in> {trace w, trace w @ [ExecToken],
               trace w @ [ExecToken, Http (GetSearch q (js ''summary,status,'' @ fid) 100)]}
        \<and> field_id_cached fid (snd (searchIssues e q w))
        \<and> trace (snd (updateCurrentStatus e k v w))
            \<in> {trace w @ [ExecToken], trace w @ [ExecToken, Http (PutIssue k fid v)]}
        \<and> field_id_cached fid (snd (updateCurrentStatus e k v w)))"
proof (intro conjI impI)
  assume "getCurrentStatusFieldId e w0 = (Inr fid, w1) \<and> fid \<noteq> []"
  then show "field_id_cached fid w1"
    by (auto simp: field_id_cached_def dest: getCurrentStatusFieldId_Inr_cache)
qed (use searchIssues_cached_trace [of fid w e q] updateCurrentStatus_cached_trace [of fid w e k v]
    in \<open>simp_all add: getCurrentStatusFieldId_cached getCurrentStatus_cached\<close>)

lemma field_id_is_resolved_once_example:
  "field_id_cached (js ''customfield_10010'')
     (snd (getCurrentStatusFieldId (demo_env [] (\<lambda>r. OkJson ()) []) initial_world))
   \<and> trace (snd (getCurrentStatusFieldId (demo_env [] (\<lambda>r. OkJson ()) []) initial_world))
       = [ExecToken, Http GetField]
   \<and> trace (snd (updateCurrentStatus (demo_env [] (\<lambda>r. OkJson ()) []) (js ''RM-1'') (js ''On track'')
        (snd (getCurrentStatusFieldId (demo_env [] (\<lambda>r. OkJson ()) []) initial_world))))
       = [ExecToken, Http GetField, ExecToken,
          Http (PutIssue (js ''RM-1'') (js ''customfield_10010'') (js ''On track''))]"
proof -
  let ?e = "demo_env [] (\<lambda>r. OkJson ()) []"
  let ?w1 = "\<lparr>currentStatusFieldId = Some (js ''customfield_10010''), trace = [ExecToken, Http GetField]\<rparr>"
  have g: "getCurrentStatusFieldId ?e initial_world = (Inr (js ''customfield_10010''), ?w1)"
    by (simp add: run_simps initial_world_def)
  have n: "js ''customfield_10010'' \<noteq> []"
    by (simp add: js_def)
  have c: "field_id_cached (js ''customfield_10010'') ?w1"
    using field_id_is_resolved_once [where e = ?e and ?w0.0 = initial_world
        and fid = "js ''customfield_10010''" and ?w1.0 = ?w1] g n
    by blast
  have "trace (snd (updateCurrentStatus ?e (js ''RM-1'') (js ''On track'') ?w1))
          \<in> {trace ?w1 @ [ExecToken],
             trace ?w1 @ [ExecToken, Http (PutIssue (js ''RM-1'') (js ''customfield_10010'') (js ''On track''))]}"
    using field_id_is_resolved_once [where fid = "js ''customfield_10010''" and w = ?w1
        and e = ?e and k = "js ''RM-1''" and v = "js ''On track''"] c
    by blast
  moreover have "trace (snd (updateCurrentStatus ?e (js ''RM-1'') (js ''On track'') ?w1))
          \<noteq> trace ?w1 @ [ExecToken]"
    by (simp add: run_simps)
  ultimately show ?thesis
    using c g by simp
qed

section \<open>How many issues a run touches\<close>

lemma is_search_simps [simp]:
  "\<not> is_search ExecToken" "\<not> is_search Prompt" "\<not> is_search (Out c)"
  "\<not> is_search (Http GetField)" "is_search (Http (GetSearch q f n))"
  "\<not> is_search (Http (PutIssue k i v))"
  by (simp_all add: is_search_def)

lemma tally_Nil [simp]: "tally d p m []"
  by (simp add: tally_def)

lemma tally_append:
  "tally d p m xs \<Longrightarrow> tally d' p' m' ys \<Longrightarrow> tally (d + d') (p + p') (m + m') (xs @ ys)"
  by (simp add: tally_def)

lemma tally_mono:
  "tally d p m xs \<Longrightarrow> d \<le> d' \<Longrightarrow> p \<le> p' \<Longrightarrow> m \<le> m' \<Longrightarrow> tally d' p' m' xs"
  by (simp add: tally_def)

lemma tally_single:
  "tally 0 0 0 [ExecToken]" "tally 0 0 0 [Http GetField]" "tally 0 0 1 [Http (PutIssue k f v)]"
  "tally 0 1 0 [Prompt]" "tally 1 0 0 [Out c]"
  by (simp_all add: tally_def split: console.splits)

lemma tally_quiet_output:
  "\<not> is_display (Out c) \<Longrightarrow> tally 0 0 0 [Out c]"
  by (simp add: tally_def)

lemma getCurrentStatus_trace:
  "getCurrentStatus e issue w = (r, w') \<Longrightarrow>
   trace w' = trace w \<or> trace w' = trace w @ [ExecToken] \<or> trace w' = trace w @ [ExecToken, Http GetField]"
  by (auto simp: getCurrentStatus_def split: prod.splits sum.splits dest: getCurrentStatusFieldId_trace)

lemma getCurrentStatusFieldId_tally:
  "getCurrentStatusFieldId e w = (r, w') \<Longrightarrow> \<exists>evs. trace w' = trace w @ evs \<and> tally 0 0 0 evs"
  by (drule getCurrentStatusFieldId_trace) (auto simp: tally_def)

lemma getCurrentStatus_tally:
  "getCurrentStatus e issue w = (r, w') \<Longrightarrow> \<exists>evs. trace w' = trace w @ evs \<and> tally 0 0 0 evs"
  by (drule getCurrentStatus_trace) (auto simp: tally_def)

lemma updateCurrentStatus_tally:
  assumes "updateCurrentStatus e k v w = (r, w')"
  shows "\<exists>evs. trace w' = trace w @ evs \<and> tally 0 0 1 evs"
proof (cases "getCurrentStatusFieldId e w")
  case (Pair r1 w1)
  from getCurrentStatusFieldId_tally [OF Pair] obtain evs1 where
    e1: "trace w1 = trace w @ evs1" "tally 0 0 0 evs1" by blast
  show ?thesis
  proof (cases r1)
    case (Inl err)
    with assms Pair have "w' = w1" by (simp add: updateCurrentStatus_def)
    with e1 show ?thesis by (auto intro: tally_mono)
  next
    case (Inr fid)
    let ?req = "PutIssue k fid v"
    obtain r2 w2 where f: "jiraFetch e ?req (\<lambda>n. put_reply e n ?req) w1 = (r2, w2)"
      by (cases "jiraFetch e ?req (\<lambda>n. put_reply e n ?req) w1")
    with assms Pair Inr have "w' = w2"
      by (cases r2) (simp_all add: updateCurrentStatus_def Let_def)
    moreover from jiraFetch_trace [OF f] obtain evs2 where
      "trace w2 = trace w1 @ evs2" "tally 0 0 1 evs2"
      by (auto simp: tally_def)
    ultimately show ?thesis
      using e1 tally_append [of 0 0 0 evs1 0 0 1 evs2] by auto
  qed
qed

lemma tryUpdate_tally:
  assumes "tryUpdate e issue v p w = (p', w')"
  shows "\<exists>evs. trace w' = trace w @ evs \<and> tally 0 0 1 evs"
proof -
  let ?w0 = "emit (Out (Updating (key issue))) w"
  obtain r w1 where u: "updateCurrentStatus e (key issue) v ?w0 = (r, w1)"
    by (cases "updateCurrentStatus e (key issue) v ?w0")
  from updateCurrentStatus_tally [OF u] obtain evs where
    e1: "trace w1 = trace ?w0 @ evs" "tally 0 0 1 evs" by blast
  from assms u obtain c where c: "w' = emit (Out c) w1" "\<not> is_display (Out c)"
    by (cases r) (auto simp: tryUpdate_def)
  have "tally 0 0 1 ([Out (Updating (key issue))] @ evs @ [Out c])"
    using tally_append [OF tally_quiet_output [of "Updating (key issue)"]
        tally_append [OF e1(2) tally_quiet_output [OF c(2)]]]
    by simp
  moreover have "trace w' = trace w @ ([Out (Updating (key issue))] @ evs @ [Out c])"
    using c(1) e1(1) by (simp add: trace_emit)
  ultimately show ?thesis by blast
qed


lemma interactiveStep_tally:
  assumes "interactiveStep e u d issue p w = (r, w')"
  shows "\<exists>evs. trace w' = trace w @ evs \<and> tally 1 1 1 evs"
proof (cases "skipAll p")
  case True
  with assms have "w' = w" by (simp add: interactiveStep_def)
  then show ?thesis by simp
next
  case False
  obtain r1 w1 where g: "getCurrentStatus e issue w = (r1, w1)"
    by (cases "getCurrentStatus e issue w")
  from getCurrentStatus_tally [OF g] obtain evs1 where
    e1: "trace w1 = trace w @ evs1" "tally 0 0 0 evs1" by blast
  show ?thesis
  proof (cases r1)
    case (Inl err)
    with assms False g have "w' = w1" by (simp add: interactiveStep_def)
    with e1 show ?thesis by (auto intro: tally_mono)
  next
    case (Inr cur)
    let ?new = "buildNewStatus (clock e (length (trace w1))) u cur d"
    let ?w2 = "displayTicketUpdate issue cur ?new w1"
    obtain sh where sh: "?w2 = emit (Out sh) w1"
      by (simp add: displayTicketUpdate_def)
    have w2: "trace ?w2 = trace w1 @ [Out sh]"
      by (simp add: sh trace_emit)
    have t2: "tally 1 0 0 (evs1 @ [Out sh])"
      using tally_append [OF e1(2) tally_single(5) [of sh]] by simp
    have upd: "\<exists>evs. trace w3 = trace w0 @ evs \<and> tally 0 0 1 evs"
      if "tryUpdate e issue ?new q w0 = (q', w3)" for q q' w0 w3
      using that by (rule tryUpdate_tally)
    show ?thesis
    proof (cases "applyAll p")
      case True
      obtain p1 w3 where t: "tryUpdate e issue ?new p ?w2 = (p1, w3)"
        by (cases "tryUpdate e issue ?new p ?w2")
      with assms False g Inr True have "w' = w3"
        by (simp add: interactiveStep_def Let_def)
      moreover from upd [OF t] obtain evs3 where
        "trace w3 = trace ?w2 @ evs3" "tally 0 0 1 evs3" by blast
      ultimately have "trace w' = trace w @ (evs1 @ [Out sh]) @ evs3" "tally (1 + 0) (0 + 0) (0 + 1) ((evs1 @ [Out sh]) @ evs3)"
        using w2 e1(1) tally_append [OF t2, of 0 0 1 evs3] by simp_all
      then show ?thesis by (auto intro: tally_mono)
    next
      case na: False
      let ?w3 = "emit Prompt ?w2"
      have w3: "trace ?w3 = trace w @ (evs1 @ [Out sh]) @ [Prompt]"
        using w2 e1(1) by (simp add: trace_emit)
      have t3: "tally 1 1 0 ((evs1 @ [Out sh]) @ [Prompt])"
        using tally_append [OF t2 tally_single(4)] by simp
      let ?answer = "operator_answer e (occurrences is_prompt ?w2)"
      consider (upd) q where "interactiveStep e u d issue p w
            = (case tryUpdate e issue ?new q ?w3 of (p1, w4) \<Rightarrow> (Inr p1, w4))"
        | (skip) c where "snd (interactiveStep e u d issue p w) = emit (Out c) ?w3" "\<not> is_display (Out c)"
        using False g Inr na
        by (cases "?answer = js ''y'' \<or> ?answer = js ''yes''";
            cases "?answer = js ''a'' \<or> ?answer = js ''all''";
            cases "?answer = js ''s'' \<or> ?answer = js ''skip'' \<or> ?answer = js ''skip all''")
          (simp_all add: interactiveStep_def Let_def)
      then show ?thesis
      proof cases
        case upd
        obtain p1 w4 where t: "tryUpdate e issue ?new q ?w3 = (p1, w4)"
          by (cases "tryUpdate e issue ?new q ?w3")
        with upd assms have "w' = w4" by simp
        moreover from tryUpdate_tally [OF t] obtain evs4 where
          "trace w4 = trace ?w3 @ evs4" "tally 0 0 1 evs4" by blast
        ultimately have "trace w' = trace w @ ((evs1 @ [Out sh]) @ [Prompt]) @ evs4"
          "tally (1 + 0) (1 + 0) (0 + 1) (((evs1 @ [Out sh]) @ [Prompt]) @ evs4)"
          using w3 tally_append [OF t3, of 0 0 1 evs4] by simp_all
        then show ?thesis by auto
      next
        case skip
        with assms have "w' = emit (Out c) ?w3" by simp
        then have "trace w' = trace w @ ((evs1 @ [Out sh]) @ [Prompt]) @ [Out c]"
          using w3 by (simp add: trace_emit)
        moreover have "tally (1 + 0) (1 + 0) (0 + 0) (((evs1 @ [Out sh]) @ [Prompt]) @ [Out c])"
          using tally_append [OF t3 tally_quiet_output [OF skip(2)]] .
        ultimately show ?thesis by (auto intro: tally_mono)
      qed
    qed
  qed
qed


lemma interactiveLoop_tally:
  "interactiveLoop e u d issues p w = (r, w') \<Longrightarrow>
   \<exists>evs. trace w' = trace w @ evs \<and> tally (length issues) (length issues) (length issues) evs"
proof (induction issues arbitrary: p w)
  case Nil
  then show ?case by simp
next
  case (Cons issue rest)
  obtain r1 w1 where s: "interactiveStep e u d issue p w = (r1, w1)"
    by (cases "interactiveStep e u d issue p w")
  from interactiveStep_tally [OF s] obtain evs1 where
    e1: "trace w1 = trace w @ evs1" "tally 1 1 1 evs1" by blast
  show ?case
  proof (cases r1)
    case (Inl err)
    with Cons.prems s have "w' = w1" by simp
    with e1 show ?thesis by (auto intro: tally_mono)
  next
    case (Inr p1)
    with Cons.prems s have "interactiveLoop e u d rest p1 w1 = (r, w')" by simp
    from Cons.IH [OF this] obtain evs2 where
      e2: "trace w' = trace w1 @ evs2" "tally (length rest) (length rest) (length rest) evs2" by blast
    from e1 e2 tally_append [OF e1(2) e2(2)] show ?thesis by auto
  qed
qed

lemma dryRunLoop_tally:
  "dryRunLoop e u d issues w = (r, w') \<Longrightarrow>
   \<exists>evs. trace w' = trace w @ evs \<and> tally (length issues) 0 0 evs"
proof (induction issues arbitrary: w)
  case Nil
  then show ?case by simp
next
  case (Cons issue rest)
  obtain r1 w1 where g: "getCurrentStatus e issue w = (r1, w1)"
    by (cases "getCurrentStatus e issue w")
  from getCurrentStatus_tally [OF g] obtain evs1 where
    e1: "trace w1 = trace w @ evs1" "tally 0 0 0 evs1" by blast
  show ?case
  proof (cases r1)
    case (Inl err)
    with Cons.prems g have "w' = w1" by simp
    with e1 show ?thesis by (auto intro: tally_mono)
  next
    case (Inr cur)
    let ?w2 = "displayTicketUpdate issue cur (buildNewStatus (clock e (length (trace w1))) u cur d) w1"
    obtain sh where sh: "?w2 = emit (Out sh) w1"
      by (simp add: displayTicketUpdate_def)
    from Cons.prems g Inr have "dryRunLoop e u d rest ?w2 = (r, w')" by simp
    from Cons.IH [OF this] obtain evs2 where
      e2: "trace w' = trace ?w2 @ evs2" "tally (length rest) 0 0 evs2" by blast
    have "tally (0 + 1 + length rest) (0 + 0 + 0) (0 + 0 + 0) ((evs1 @ [Out sh]) @ evs2)"
      by (intro tally_append e1(2) e2(2) tally_single(5))
    moreover have "trace ?w2 = trace w1 @ [Out sh]"
      by (simp only: sh trace_emit)
    then have "trace w' = trace w @ (evs1 @ [Out sh]) @ evs2"
      by (simp only: e2(1) e1(1) append_assoc)
    ultimately show ?thesis by auto
  qed
qed

lemma processTicketsInteractive_tally:
  assumes "processTicketsInteractive e issues u d w = (r, w')"
  shows "\<exists>evs. trace w' = trace w @ evs \<and> tally (length issues) (length issues) (length issues) evs"
proof -
  let ?p0 = "\<lparr>applyAll = False, skipAll = False, updatedCount = 0, skippedCount = 0\<rparr>"
  obtain r1 w1 where l: "interactiveLoop e u d issues ?p0 w = (r1, w1)"
    by (cases "interactiveLoop e u d issues ?p0 w")
  from interactiveLoop_tally [OF l] obtain evs where
    e1: "trace w1 = trace w @ evs" "tally (length issues) (length issues) (length issues) evs" by blast
  show ?thesis
  proof (cases r1)
    case (Inl err)
    with assms l have "w' = w1" by (simp add: processTicketsInteractive_def)
    with e1 show ?thesis by auto
  next
    case (Inr p)
    with assms l have "w' = emit (Out (Summary (updatedCount p) (skippedCount p))) w1"
      by (simp add: processTicketsInteractive_def)
    then have "trace w' = trace w @ evs @ [Out (Summary (updatedCount p) (skippedCount p))]"
      using e1(1) by (simp add: trace_emit)
    moreover have "tally (length issues + 0) (length issues + 0) (length issues + 0)
        (evs @ [Out (Summary (updatedCount p) (skippedCount p))])"
      by (intro tally_append e1(2) tally_quiet_output) simp
    ultimately show ?thesis by auto
  qed
qed

lemma processTicketsDryRun_tally:
  assumes "processTicketsDryRun e issues u d w = (r, w')"
  shows "\<exists>evs. trace w' = trace w @ evs \<and> tally (length issues) (length issues) (length issues) evs"
proof -
  let ?w0 = "emit (Out DryRunBanner) w"
  obtain r1 w1 where l: "dryRunLoop e u d issues ?w0 = (r1, w1)"
    by (cases "dryRunLoop e u d issues ?w0")
  from dryRunLoop_tally [OF l] obtain evs where
    e1: "trace w1 = trace ?w0 @ evs" "tally (length issues) 0 0 evs" by blast
  have t1: "tally (0 + length issues) (0 + 0) (0 + 0) ([Out DryRunBanner] @ evs)"
    by (intro tally_append e1(2) tally_quiet_output) simp
  show ?thesis
  proof (cases r1)
    case (Inl err)
    with assms l have "w' = w1" by (simp add: processTicketsDryRun_def)
    then have "trace w' = trace w @ [Out DryRunBanner] @ evs"
      using e1(1) by (simp add: trace_emit)
    with t1 show ?thesis by (auto intro: tally_mono)
  next
    case (Inr x)
    with assms l have "w' = emit (Out (WouldUpdate (length issues))) w1"
      by (simp add: processTicketsDryRun_def)
    then have "trace w' = trace w @ ([Out DryRunBanner] @ evs) @ [Out (WouldUpdate (length issues))]"
      using e1(1) by (simp add: trace_emit)
    moreover have "tally (0 + length issues + 0) (0 + 0 + 0) (0 + 0 + 0)
        (([Out DryRunBanner] @ evs) @ [Out (WouldUpdate (length issues))])"
      by (intro tally_append t1 tally_quiet_output) simp
    ultimately show ?thesis by (auto intro: tally_mono)
  qed
qed

text \<open>
  What a search adds: token runs and at most one field lookup, then at most one search
  request, which asks for 100 results; issues come back only in a reply of the server to
  such a request.
\<close>

lemma searchIssues_effects:
  assumes "searchIssues e q w = (r, w')"
  shows "\<exists>evs. trace w' = trace w @ evs
           \<and> filter is_display evs = [] \<and> filter is_prompt evs = [] \<and> filter is_write evs = []
           \<and> (filter is_search evs = [] \<or> (\<exists>f. filter is_search evs = [Http (GetSearch q f 100)]))
           \<and> (\<forall>found. r = Inr found \<longrightarrow> (\<exists>n f. search_reply e n (GetSearch q f 100) = OkJson found))"
proof (cases "getCurrentStatusFieldId e w")
  case (Pair r1 w1)
  from getCurrentStatusFieldId_tally [OF Pair] obtain evs1 where
    e1: "trace w1 = trace w @ evs1" "tally 0 0 0 evs1" by blast
  have stop: ?thesis if "w' = w1" "\<And>found. r \<noteq> Inr found"
    using that e1 by (auto simp: tally_def)
  show ?thesis
  proof (cases r1)
    case (Inl err)
    with assms Pair show ?thesis by (intro stop) (auto simp: searchIssues_def)
  next
    case (Inr fid)
    show ?thesis
    proof (cases "well_formed q")
      case False
      with assms Pair Inr show ?thesis by (intro stop) (auto simp: searchIssues_def)
    next
      case True
      let ?req = "GetSearch q (js ''summary,status,'' @ fid) 100"
      from assms Pair Inr True
      have f: "jiraFetch e ?req (\<lambda>n. search_reply e n ?req) w1 = (r, w')"
        by (simp add: searchIssues_def Let_def)
      have "\<exists>n. search_reply e n ?req = OkJson found" if "r = Inr found" for found
        using f that
        by (auto simp: jiraFetch_def Let_def split: prod.splits sum.splits reply.splits)
      then have origin: "\<forall>found. r = Inr found \<longrightarrow>
          (\<exists>n f. search_reply e n (GetSearch q f 100) = OkJson found)"
        by blast
      from jiraFetch_trace [OF f] consider "trace w' = trace w @ evs1 @ [ExecToken]"
        | "trace w' = trace w @ evs1 @ [ExecToken, Http ?req]"
        using e1(1) by auto
      then show ?thesis
      proof cases
        case 1
        with e1(2) origin show ?thesis
          by (intro exI [of _ "evs1 @ [ExecToken]"]) (simp add: tally_def)
      next
        case 2
        with e1(2) origin show ?thesis
          by (intro exI [of _ "evs1 @ [ExecToken, Http ?req]"]) (simp add: tally_def)
      qed
    qed
  qed
qed


lemma handleUpdate_effects:
  "\<exists>evs n. trace (snd (handleUpdate e u opts w)) = trace w @ evs
     \<and> length (filter is_display evs) \<le> n \<and> length (filter is_prompt evs) \<le> n
     \<and> length (filter is_write evs) \<le> n
     \<and> (filter is_search evs = [] \<or> (\<exists>f. filter is_search evs = [Http (GetSearch (jql opts) f 100)]))
     \<and> (n = 0 \<or> (\<exists>k f found. search_reply e k (GetSearch (jql opts) f 100) = OkJson found
                      \<and> n = length found))"
  (is "\<exists>evs n. ?P evs n")
proof -
  let ?w1 = "emit ExecToken w"
  obtain a w1 where a: "isAuthenticated e w = (a, w1)"
    by (cases "isAuthenticated e w")
  with isAuthenticated_world [of e w] have w1: "w1 = ?w1" by simp
  show ?thesis
  proof (cases a)
    case False
    with a w1 have "snd (handleUpdate e u opts w) = emit (Out NotAuthenticated) ?w1"
      by (simp add: handleUpdate_def)
    then have "?P [ExecToken, Out NotAuthenticated] 0"
      by (simp add: trace_emit)
    then show ?thesis by blast
  next
    case True
    let ?ws = "emit (Out Searching) ?w1"
    obtain r w2 where s: "searchIssues e (jql opts) ?ws = (r, w2)"
      by (cases "searchIssues e (jql opts) ?ws")
    from searchIssues_effects [OF s] obtain sevs where
      t2: "trace w2 = trace ?ws @ sevs"
      and q: "filter is_display sevs = []" "filter is_prompt sevs = []" "filter is_write sevs = []"
      and sr: "filter is_search sevs = [] \<or> (\<exists>f. filter is_search sevs = [Http (GetSearch (jql opts) f 100)])"
      and from_server: "\<forall>found. r = Inr found \<longrightarrow>
          (\<exists>n f. search_reply e n (GetSearch (jql opts) f 100) = OkJson found)"
      by blast
    have t2': "trace w2 = trace w @ [ExecToken, Out Searching] @ sevs"
      using t2 by (simp add: trace_emit)
    have failed: "?P ([ExecToken, Out Searching] @ sevs @ levs @ [Out SearchFailed, Out (ErrorLine err)]) n"
      if "snd (handleUpdate e u opts w) = emit (Out (ErrorLine err)) (emit (Out SearchFailed) w5)"
        and "trace w5 = trace w2 @ levs" and "tally n n n levs"
        and "n = 0 \<or> (\<exists>k f found. search_reply e k (GetSearch (jql opts) f 100) = OkJson found
                      \<and> n = length found)"
      for err w5 levs n
      using that t2' q sr by (simp add: trace_emit tally_def)
    show ?thesis
    proof (cases r)
      case (Inl err)
      with a w1 True s
      have "snd (handleUpdate e u opts w) = emit (Out (ErrorLine err)) (emit (Out SearchFailed) w2)"
        by (simp add: handleUpdate_def)
      from failed [OF this, of "[]" 0] show ?thesis by auto
    next
      case (Inr found)
      from from_server Inr obtain k f where
        k: "search_reply e k (GetSearch (jql opts) f 100) = OkJson found" by blast
      let ?w3 = "emit (Out (Found (length found))) w2"
      show ?thesis
      proof (cases "found = []")
        case True
        with a w1 \<open>a\<close> s Inr
        have "snd (handleUpdate e u opts w)
              = emit (Out (JqlLine (jql opts))) (emit (Out NoTicketsFound) ?w3)"
          by (simp add: handleUpdate_def)
        then have "?P ([ExecToken, Out Searching] @ sevs
                       @ [Out (Found (length found)), Out NoTicketsFound, Out (JqlLine (jql opts))]) 0"
          using t2' q sr by (simp add: trace_emit)
        then show ?thesis by blast
      next
        case False
        let ?w4 = "emit (Out (JqlLine (jql opts))) ?w3"
        let ?run = "if dryRun opts then processTicketsDryRun e found u (datePrefix opts) ?w4
                    else processTicketsInteractive e found u (datePrefix opts) ?w4"
        obtain r5 w5 where run: "?run = (r5, w5)"
          by (cases ?run)
        then obtain levs where
          l: "trace w5 = trace ?w4 @ levs" "tally (length found) (length found) (length found) levs"
          using processTicketsDryRun_tally [of e found u "datePrefix opts" ?w4 r5 w5]
            processTicketsInteractive_tally [of e found u "datePrefix opts" ?w4 r5 w5]
          by (auto split: if_splits)
        let ?mid = "[Out (Found (length found)), Out (JqlLine (jql opts))] @ levs"
        have l': "trace w5 = trace w2 @ ?mid" "tally (length found) (length found) (length found) ?mid"
          using l by (simp_all add: trace_emit tally_def)
        have n: "length found = 0 \<or> (\<exists>k f found'. search_reply e k (GetSearch (jql opts) f 100) = OkJson found'
                      \<and> length found = length found')"
          using k by blast
        show ?thesis
        proof (cases r5)
          case (Inl err)
          with a w1 True s \<open>r = Inr found\<close> False run
          have "snd (handleUpdate e u opts w) = emit (Out (ErrorLine err)) (emit (Out SearchFailed) w5)"
            by (simp add: handleUpdate_def Let_def split: if_splits)
          from failed [OF this l' n] show ?thesis by blast
        next
          case (Inr x)
          with a w1 True s \<open>r = Inr found\<close> False run
          have "snd (handleUpdate e u opts w) = w5"
            by (simp add: handleUpdate_def Let_def split: if_splits)
          then have "?P ([ExecToken, Out Searching] @ sevs @ ?mid) (length found)"
            using t2' l' q sr n by (simp add: tally_def)
          then show ?thesis by blast
        qed
      qed
    qed
  qed
qed

text \<open>
  Claim C9. A run sends at most one search request, and that request asks for 100
  results (there is no second page). When the server honours the limit it is sent
  (a reply to a search holds no more issues than \<open>maxResults\<close>), the run shows at most
  100 issues, asks at most 100 questions and sends at most 100 update requests, in
  either mode and whatever the operator answers.
\<close>

theorem run_touches_at_most_100_issues:
  assumes "\<forall>n q f m found. search_reply e n (GetSearch q f m) = OkJson found \<longrightarrow> length found \<le> m"
  shows "\<exists>evs. trace (snd (handleUpdate e u opts w)) = trace w @ evs
           \<and> length (filter is_display evs) \<le> 100 \<and> length (filter is_prompt evs) \<le> 100
           \<and> length (filter is_write evs) \<le> 100
           \<and> (filter is_search evs = [] \<or> (\<exists>f. filter is_search evs = [Http (GetSearch (jql opts) f 100)]))"
proof -
  from handleUpdate_effects [of e u opts w] obtain evs n where
    t: "trace (snd (handleUpdate e u opts w)) = trace w @ evs"
    and c: "length (filter is_display evs) \<le> n" "length (filter is_prompt evs) \<le> n"
      "length (filter is_write evs) \<le> n"
    and s: "filter is_search evs = [] \<or> (\<exists>f. filter is_search evs = [Http (GetSearch (jql opts) f 100)])"
    and n: "n = 0 \<or> (\<exists>k f found. search_reply e k (GetSearch (jql opts) f 100) = OkJson found
                      \<and> n = length found)"
    by blast
  from n assms have "n \<le> 100" by auto
  with t c s show ?thesis
    by (intro exI [of _ evs]) auto
qed


theorem run_touches_at_most_100_issues_witness:
  "length (filter is_display (trace (snd (handleUpdate
      (demo_env [js ''a''] (\<lambda>r. OkJson ()) [demo_issue ''RM-1'' None, demo_issue ''RM-2'' None])
      (js ''On track'') \<lparr>jql = js ''project = RM'', dryRun = False, datePrefix = False\<rparr>
      initial_world)))) \<le> 100
   \<and> length (filter is_write (trace (snd (handleUpdate
      (demo_env [js ''a''] (\<lambda>r. OkJson ()) [demo_issue ''RM-1'' None, demo_issue ''RM-2'' None])
      (js ''On track'') \<lparr>jql = js ''project = RM'', dryRun = False, datePrefix = False\<rparr>
      initial_world)))) = 2
   \<and> filter is_search (trace (snd (handleUpdate
      (demo_env [js ''a''] (\<lambda>r. OkJson ()) [demo_issue ''RM-1'' None, demo_issue ''RM-2'' None])
      (js ''On track'') \<lparr>jql = js ''project = RM'', dryRun = False, datePrefix = False\<rparr>
      initial_world)))
     = [Http (GetSearch (js ''project = RM'') (js ''summary,status,customfield_10010'') 100)]"
proof -
  let ?e = "demo_env [js ''a''] (\<lambda>r. OkJson ()) [demo_issue ''RM-1'' None, demo_issue ''RM-2'' None]"
  let ?o = "\<lparr>jql = js ''project = RM'', dryRun = False, datePrefix = False\<rparr>"
  have h: "\<forall>n q f m found. search_reply ?e n (GetSearch q f m) = OkJson found \<longrightarrow> length found \<le> m"
    by (simp add: demo_env_def)
  from run_touches_at_most_100_issues [OF h, of "js ''On track''" ?o initial_world]
  have "length (filter is_display (trace (snd (handleUpdate ?e (js ''On track'') ?o initial_world)))) \<le> 100"
    by (auto simp: initial_world_def)
  moreover have "trace (snd (handleUpdate ?e (js ''On track'') ?o initial_world))
    = [ExecToken, Out Searching, ExecToken, Http GetField, ExecToken,
       Http (GetSearch (js ''project = RM'') (js ''summary,status,customfield_10010'') 100),
       Out (Found 2), Out (JqlLine (js ''project = RM'')),
       Out (TicketUpdate (js ''RM-1'') (js ''Task'') (js ''In Progress'') None (js ''On track'')),
       Prompt, Out (Updating (js ''RM-1'')), ExecToken,
       Http (PutIssue (js ''RM-1'') (js ''customfield_10010'') (js ''On track'')),
       Out (Updated (js ''RM-1'')),
       Out (TicketUpdate (js ''RM-2'') (js ''Task'') (js ''In Progress'') None (js ''On track'')),
       Out (Updating (js ''RM-2'')), ExecToken,
       Http (PutIssue (js ''RM-2'') (js ''customfield_10010'') (js ''On track'')),
       Out (Updated (js ''RM-2'')), Out (Summary 2 0)]"
    by (simp add: run_simps initial_world_def)
  ultimately show ?thesis
    by simp
qed

end
